theory Spec2Isabelle
  imports Main
begin

section \<open>Data of the scraper and of the uploader\<close>

text \<open>
  An entry of the catalog listing (\<^verbatim>\<open>article_info\<close>): the keys \<^verbatim>\<open>id\<close> and
  \<^verbatim>\<open>title\<close> are the ones the scraper reads.
\<close>

record descriptor =
  d_id :: int
  d_title :: string

text \<open>
  The \<^verbatim>\<open>article\<close> object of the item endpoint, with the keys read by
  \<^verbatim>\<open>scrape_article\<close>. A missing or null \<^verbatim>\<open>body\<close> is the empty string: the source
  tests it with \<^verbatim>\<open>not html_content\<close> only.
\<close>

record article =
  a_body :: string
  a_html_url :: string
  a_title :: string
  a_updated_at :: string

text \<open>The dictionary returned by \<^verbatim>\<open>scrape_article\<close>.\<close>

record article_data =
  ad_markdown :: string
  ad_hash :: string
  ad_url :: string
  ad_title :: string
  ad_updated_at :: string
  ad_scraped_at :: string

text \<open>One value of the metadata dictionary, with the five keys written by \<^verbatim>\<open>scrape_all\<close>.\<close>

record fingerprint_record =
  m_hash :: string
  m_url :: string
  m_title :: string
  m_filename :: string
  m_last_updated :: string

type_synonym metadata = "string \<rightharpoonup> fingerprint_record"

datatype classification = Added | Updated | Unchanged | Failed

record stats =
  added :: nat
  updated :: nat
  skipped :: nat
  failed :: nat

text \<open>
  The answer to one HTTP request. \<open>Raised\<close>: \<^verbatim>\<open>requests.get\<close>, \<^verbatim>\<open>requests.post\<close> or
  \<^verbatim>\<open>response.json()\<close> raised an exception. \<open>Reply code js\<close>: the status code and the
  decoded body. Where the source only tests a decoded value for truth, the body is an
  option and \<open>None\<close> stands for a false JSON value (null, an empty object).
\<close>

datatype 'a reply = Raised | Reply nat 'a

record page =
  p_articles :: "descriptor list"
  p_next_page :: bool

record file_object =
  fo_id :: "string option"

datatype request =
    GetArticles nat nat
  | GetArticle string
  | PostFile string string
  | PostVectorStoreFile "string option" "string option"

text \<open>
  The services and the process environment. Every service is asked with the number of
  requests sent before (two requests for the same thing need not get the same answer).
  \<open>now n\<close> is the text of \<^verbatim>\<open>datetime.now().isoformat()\<close> after \<open>n\<close> requests.
\<close>

record network =
  articles_json :: "nat \<Rightarrow> nat \<Rightarrow> nat \<Rightarrow> page reply"
  article_json :: "nat \<Rightarrow> string \<Rightarrow> article option reply"
  files_post :: "nat \<Rightarrow> string \<Rightarrow> string \<Rightarrow> file_object option reply"
  vector_store_files_post :: "nat \<Rightarrow> string option \<Rightarrow> string option \<Rightarrow> string option reply"
  now :: "nat \<Rightarrow> string"
  OPENAI_API_KEY :: "string option"
  VECTOR_STORE_ID :: "string option"

text \<open>
  The library functions the scraper calls. \<open>html_to_markdown\<close> is the parse by
  BeautifulSoup, the removal of the script, style, meta and link tags and
  \<^verbatim>\<open>self.h2t.handle\<close>. The converter \<^verbatim>\<open>self.h2t\<close> is one object, built with the scraper
  and used for every article, and it keeps state from one call of \<^verbatim>\<open>handle\<close> to the
  next: what it returns for a document may depend on the documents it handled before.
  So \<open>html_to_markdown\<close> takes these documents first, oldest first, and then the document
  to convert. \<open>md5_hexdigest\<close> is \<^verbatim>\<open>hashlib.md5(...).hexdigest()\<close> of the UTF-8 encoding.
\<close>

record library =
  html_to_markdown :: "string list \<Rightarrow> string \<Rightarrow> string"
  md5_hexdigest :: "string \<Rightarrow> string"

text \<open>
  The metadata file \<^verbatim>\<open>articles_metadata.json\<close>: absent, opened for writing with nothing
  written yet (\<^verbatim>\<open>open(..., 'w')\<close> truncates), or holding a dictionary.
\<close>

datatype metadata_file = Absent | Emptied | Written metadata

text \<open>
  What a run changes outside the variables of its loop: the metadata file, the files of
  the articles directory (by path), the requests sent, oldest first, and the converter of
  the scraper object, given by the documents it has handled, oldest first.
\<close>

record world =
  metadata_file :: metadata_file
  fs :: "string \<rightharpoonup> string"
  requests :: "request list"
  h2t :: "string list"

datatype error = JSONDecodeError | ValueError

section \<open>Strings and paths\<close>

definition digit_char :: "nat \<Rightarrow> char" where
  "digit_char n = char_of (48 + n)"

fun str_nat :: "nat \<Rightarrow> string" where
  "str_nat n = (if n < 10 then [digit_char n] else str_nat (n div 10) @ [digit_char (n mod 10)])"

declare str_nat.simps [simp del]

definition str_int :: "int \<Rightarrow> string" where
  "str_int i = (if i < 0 then CHR ''-'' # str_nat (nat (- i)) else str_nat (nat i))"

definition newline :: char where
  "newline = CHR 0x0A"

text \<open>\<^verbatim>\<open>str.isspace\<close> on the characters below 256.\<close>

definition isspace :: "char \<Rightarrow> bool" where
  "isspace c = (of_char c \<in> {9, 10, 11, 12, 13, 28, 29, 30, 31, 32, 133, 160 :: nat})"

definition strip :: "string \<Rightarrow> string" where
  "strip s = rev (dropWhile isspace (rev (dropWhile isspace s)))"

text \<open>\<^verbatim>\<open>s.split('\n')\<close> and \<^verbatim>\<open>'\n'.join(lines)\<close>.\<close>

fun split_newline :: "string \<Rightarrow> string list" where
  "split_newline [] = [[]]"
| "split_newline (c # cs) =
     (if c = newline then [] # split_newline cs
      else (c # hd (split_newline cs)) # tl (split_newline cs))"

fun join_newline :: "string list \<Rightarrow> string" where
  "join_newline [] = []"
| "join_newline [l] = l"
| "join_newline (l # ls) = l @ newline # join_newline ls"

text \<open>\<^verbatim>\<open>os.path.join(a, b)\<close> on POSIX.\<close>

definition os_path_join :: "string \<Rightarrow> string \<Rightarrow> string" where
  "os_path_join a b =
     (if b \<noteq> [] \<and> hd b = CHR ''/'' then b
      else if a = [] \<or> last a = CHR ''/'' then a @ b
      else a @ CHR ''/'' # b)"

definition basename :: "string \<Rightarrow> string" where
  "basename p = rev (takeWhile (\<lambda>c. c \<noteq> CHR ''/'') (rev p))"

text \<open>\<^verbatim>\<open>xs[:limit]\<close>: a negative limit counts from the end.\<close>

definition slice_to :: "int \<Rightarrow> 'a list \<Rightarrow> 'a list" where
  "slice_to limit xs =
     (if limit < 0 then take (nat (int (length xs) + limit)) xs else take (nat limit) xs)"

section \<open>The scraper\<close>

definition send :: "request \<Rightarrow> world \<Rightarrow> world" where
  "send r w = w\<lparr>requests := requests w @ [r]\<rparr>"

definition load_metadata :: "world \<Rightarrow> error + metadata" where
  "load_metadata w =
     (case metadata_file w of
        Absent \<Rightarrow> Inr Map.empty
      | Emptied \<Rightarrow> Inl JSONDecodeError
      | Written m \<Rightarrow> Inr m)"

text \<open>
  \<^verbatim>\<open>save_metadata\<close> is two statements: \<^verbatim>\<open>open(self.metadata_file, 'w')\<close>, which
  truncates the file, then \<^verbatim>\<open>json.dump\<close>. \<open>save_metadata_steps\<close> lists the world after
  each of them; \<open>save_metadata\<close> is the last one.
\<close>

definition open_w :: "world \<Rightarrow> world" where
  "open_w w = w\<lparr>metadata_file := Emptied\<rparr>"

definition json_dump :: "metadata \<Rightarrow> world \<Rightarrow> world" where
  "json_dump m w = w\<lparr>metadata_file := Written m\<rparr>"

definition save_metadata_steps :: "metadata \<Rightarrow> world \<Rightarrow> world list" where
  "save_metadata_steps m w = [open_w w, json_dump m (open_w w)]"

definition save_metadata :: "metadata \<Rightarrow> world \<Rightarrow> world" where
  "save_metadata m w = json_dump m (open_w w)"

definition get_article_hash :: "library \<Rightarrow> string \<Rightarrow> string" where
  "get_article_hash L content = md5_hexdigest L content"

text \<open>
  The loop of \<^verbatim>\<open>fetch_articles_list\<close>. It has no bound of its own: a catalog whose
  every page is full and names a next page keeps it running, which is the value \<open>None\<close>.
\<close>

partial_function (option) fetch_articles_loop ::
  "network \<Rightarrow> nat \<Rightarrow> nat \<Rightarrow> descriptor list \<Rightarrow> world \<Rightarrow> (descriptor list \<times> world) option"
where
  "fetch_articles_loop N per_page page_no articles w =
     (case articles_json N (length (requests w)) page_no per_page of
        Raised \<Rightarrow> Some (articles, send (GetArticles page_no per_page) w)
      | Reply code data \<Rightarrow>
          if code \<noteq> 200 then Some (articles, send (GetArticles page_no per_page) w)
          else if p_articles data = [] then Some (articles, send (GetArticles page_no per_page) w)
          else if \<not> p_next_page data
            then Some (articles @ p_articles data, send (GetArticles page_no per_page) w)
          else fetch_articles_loop N per_page (page_no + 1) (articles @ p_articles data)
                 (send (GetArticles page_no per_page) w))"

definition fetch_articles_list ::
  "network \<Rightarrow> nat \<Rightarrow> world \<Rightarrow> (descriptor list \<times> world) option" where
  "fetch_articles_list N per_page w = fetch_articles_loop N per_page 1 [] w"

definition fetch_article_content ::
  "network \<Rightarrow> int \<Rightarrow> world \<Rightarrow> article option \<times> world" where
  "fetch_article_content N article_id w =
     (case article_json N (length (requests w)) (str_int article_id) of
        Raised \<Rightarrow> (None, send (GetArticle (str_int article_id)) w)
      | Reply code js \<Rightarrow>
          if code = 200 then (js, send (GetArticle (str_int article_id)) w)
          else (None, send (GetArticle (str_int article_id)) w))"

text \<open>The loop of \<^verbatim>\<open>clean_html_to_markdown\<close> that drops a blank line after a blank line.\<close>

fun clean_lines :: "bool \<Rightarrow> string list \<Rightarrow> string list" where
  "clean_lines prev_empty [] = []"
| "clean_lines prev_empty (line # rest) =
     (if strip line = [] then
        (if \<not> prev_empty then line # clean_lines True rest else clean_lines True rest)
      else line # clean_lines False rest)"

definition header :: "string \<Rightarrow> string" where
  "header article_url = ''Article URL: '' @ article_url @ [newline, newline]"

text \<open>
  \<^verbatim>\<open>clean_html_to_markdown\<close>, on the converter: it returns the markdown and the converter
  after the call. An empty body returns before the converter is used.
\<close>

definition clean_html_to_markdown ::
  "library \<Rightarrow> string \<Rightarrow> string \<Rightarrow> string list \<Rightarrow> string \<times> string list" where
  "clean_html_to_markdown L html_content article_url handled =
     (if html_content = [] then ([], handled)
      else (header article_url @
            strip (join_newline (clean_lines False
               (split_newline (html_to_markdown L handled html_content)))),
            handled @ [html_content]))"

definition scrape_article ::
  "library \<Rightarrow> network \<Rightarrow> descriptor \<Rightarrow> world \<Rightarrow> article_data option \<times> world" where
  "scrape_article L N article_info w =
     (case fetch_article_content N (d_id article_info) w of
        (None, w1) \<Rightarrow> (None, w1)
      | (Some a, w1) \<Rightarrow>
          (let cleaned = clean_html_to_markdown L (a_body a) (a_html_url a) (h2t w1);
               markdown = fst cleaned;
               w2 = w1\<lparr>h2t := snd cleaned\<rparr>
           in
           if markdown = [] \<or> markdown = header (a_html_url a) then (None, w2)
           else (Some \<lparr>ad_markdown = markdown,
                       ad_hash = get_article_hash L markdown,
                       ad_url = a_html_url a,
                       ad_title = a_title a,
                       ad_updated_at = a_updated_at a,
                       ad_scraped_at = now N (length (requests w2))\<rparr>, w2)))"

definition save_article :: "article_data \<Rightarrow> string \<Rightarrow> world \<Rightarrow> world" where
  "save_article data filename w =
     w\<lparr>fs := (fs w)(os_path_join ''articles'' filename \<mapsto> ad_markdown data)\<rparr>"

text \<open>
  The variables of the loop of \<^verbatim>\<open>scrape_all\<close>. \<open>classified\<close> and \<open>scraped\<close> are not
  variables of the source: they list, for each descriptor in turn, the article id with the
  classification that the source prints and counts, and the article id with the markdown
  that \<^verbatim>\<open>scrape_article\<close> returned in that turn (\<open>None\<close> when it returned nothing).
\<close>

record scrape_state =
  metadata :: metadata
  counts :: stats
  new_articles :: "string list"
  classified :: "(string \<times> classification) list"
  scraped :: "(string \<times> string option) list"

definition md_filename :: "string \<Rightarrow> string" where
  "md_filename article_id = article_id @ ''.md''"

text \<open>One turn of the loop of \<^verbatim>\<open>scrape_all\<close>.\<close>

definition scrape_one ::
  "library \<Rightarrow> network \<Rightarrow> descriptor \<Rightarrow> scrape_state \<times> world \<Rightarrow> scrape_state \<times> world" where
  "scrape_one L N article_info sw =
     (let s = fst sw; article_id = str_int (d_id article_info) in
      case scrape_article L N article_info (snd sw) of
        (None, w1) \<Rightarrow>
          (s\<lparr>counts := (counts s)\<lparr>failed := failed (counts s) + 1\<rparr>,
             classified := classified s @ [(article_id, Failed)],
             scraped := scraped s @ [(article_id, None)]\<rparr>, w1)
      | (Some data, w1) \<Rightarrow>
          (let filename = md_filename article_id in
           case metadata s article_id of
             Some r \<Rightarrow>
               if m_hash r \<noteq> ad_hash data then
                 (s\<lparr>counts := (counts s)\<lparr>updated := updated (counts s) + 1\<rparr>,
                    metadata := (metadata s)(article_id \<mapsto>
                       r\<lparr>m_hash := ad_hash data, m_last_updated := ad_scraped_at data\<rparr>),
                    new_articles := new_articles s @ [filename],
                    classified := classified s @ [(article_id, Updated)],
                    scraped := scraped s @ [(article_id, Some (ad_markdown data))]\<rparr>,
                  save_article data filename w1)
               else
                 (s\<lparr>counts := (counts s)\<lparr>skipped := skipped (counts s) + 1\<rparr>,
                    classified := classified s @ [(article_id, Unchanged)],
                    scraped := scraped s @ [(article_id, Some (ad_markdown data))]\<rparr>, w1)
           | None \<Rightarrow>
               (s\<lparr>counts := (counts s)\<lparr>added := added (counts s) + 1\<rparr>,
                  metadata := (metadata s)(article_id \<mapsto>
                     \<lparr>m_hash = ad_hash data, m_url = ad_url data, m_title = ad_title data,
                      m_filename = filename, m_last_updated = ad_scraped_at data\<rparr>),
                  new_articles := new_articles s @ [filename],
                  classified := classified s @ [(article_id, Added)],
                  scraped := scraped s @ [(article_id, Some (ad_markdown data))]\<rparr>,
                save_article data filename w1)))"

fun scrape_loop ::
  "library \<Rightarrow> network \<Rightarrow> descriptor list \<Rightarrow> scrape_state \<times> world \<Rightarrow> scrape_state \<times> world" where
  "scrape_loop L N [] sw = sw"
| "scrape_loop L N (article_info # rest) sw = scrape_loop L N rest (scrape_one L N article_info sw)"

definition zero_stats :: stats where
  "zero_stats = \<lparr>added = 0, updated = 0, skipped = 0, failed = 0\<rparr>"

definition init_state :: "metadata \<Rightarrow> scrape_state" where
  "init_state m =
     \<lparr>metadata = m, counts = zero_stats, new_articles = [], classified = [], scraped = []\<rparr>"

text \<open>
  The result of \<^verbatim>\<open>scrape_all\<close>: the statistics, the list \<^verbatim>\<open>new_articles\<close>, and then the
  classifications and the markdowns in turn (the last two are not returned by the source).
\<close>

type_synonym scrape_result =
  "stats \<times> string list \<times> (string \<times> classification) list \<times> (string \<times> string option) list"

definition result_of :: "scrape_state \<Rightarrow> scrape_result" where
  "result_of s = (counts s, new_articles s, classified s, scraped s)"

text \<open>
  \<^verbatim>\<open>scrape_all\<close>. \<open>None\<close>: the listing never returns. \<open>Inl\<close>: \<^verbatim>\<open>load_metadata\<close> raised,
  which nothing in \<^verbatim>\<open>scrape_all\<close> catches.
\<close>

definition scrape_all ::
  "library \<Rightarrow> network \<Rightarrow> int \<Rightarrow> world \<Rightarrow> ((error + scrape_result) \<times> world) option" where
  "scrape_all L N limit w =
     (case fetch_articles_list N 100 w of
        None \<Rightarrow> None
      | Some (all_articles, w1) \<Rightarrow>
          if all_articles = [] then Some (Inr (zero_stats, [], [], []), w1)
          else
            (case load_metadata w1 of
               Inl e \<Rightarrow> Some (Inl e, w1)
             | Inr m \<Rightarrow>
                 (let sw = scrape_loop L N (slice_to limit all_articles) (init_state m, w1)
                  in Some (Inr (result_of (fst sw)), save_metadata (metadata (fst sw)) (snd sw)))))"

section \<open>The uploader\<close>

record manager =
  api_key :: string
  vector_store_id :: "string option"

text \<open>\<^verbatim>\<open>VectorStoreManager.__init__\<close>: a missing or empty key raises \<^verbatim>\<open>ValueError\<close>.\<close>

definition VectorStoreManager :: "network \<Rightarrow> error + manager" where
  "VectorStoreManager N =
     (case OPENAI_API_KEY N of
        None \<Rightarrow> Inl ValueError
      | Some k \<Rightarrow>
          if k = [] then Inl ValueError
          else Inr \<lparr>api_key = k, vector_store_id = VECTOR_STORE_ID N\<rparr>)"

text \<open>
  \<^verbatim>\<open>upload_file\<close>: a file that cannot be opened raises inside the \<^verbatim>\<open>try\<close>, before
  any request is sent.
\<close>

definition upload_file ::
  "network \<Rightarrow> manager \<Rightarrow> string \<Rightarrow> world \<Rightarrow> file_object option \<times> world" where
  "upload_file N self file_path w =
     (case fs w file_path of
        None \<Rightarrow> (None, w)
      | Some content \<Rightarrow>
          (case files_post N (length (requests w)) (basename file_path) content of
             Raised \<Rightarrow> (None, send (PostFile (basename file_path) content) w)
           | Reply code js \<Rightarrow>
               if code = 200 then (js, send (PostFile (basename file_path) content) w)
               else (None, send (PostFile (basename file_path) content) w)))"

definition add_file_to_vector_store ::
  "network \<Rightarrow> manager \<Rightarrow> string option \<Rightarrow> world \<Rightarrow> string option \<times> world" where
  "add_file_to_vector_store N self file_id w =
     (case vector_store_files_post N (length (requests w)) (vector_store_id self) file_id of
        Raised \<Rightarrow> (None, send (PostVectorStoreFile (vector_store_id self) file_id) w)
      | Reply code js \<Rightarrow>
          if code = 200 \<or> code = 201
          then (js, send (PostVectorStoreFile (vector_store_id self) file_id) w)
          else (None, send (PostVectorStoreFile (vector_store_id self) file_id) w))"

record upload_result =
  uploaded :: nat
  failed_uploads :: nat
  total :: nat

text \<open>One turn of the loop of \<^verbatim>\<open>upload_delta_files\<close>, on its two counters and the world.\<close>

definition upload_one ::
  "network \<Rightarrow> manager \<Rightarrow> string \<Rightarrow> (nat \<times> nat) \<times> world \<Rightarrow> (nat \<times> nat) \<times> world" where
  "upload_one N self file_path cw =
     (let uploaded_count = fst (fst cw); failed_count = snd (fst cw) in
      case upload_file N self file_path (snd cw) of
        (None, w1) \<Rightarrow> ((uploaded_count, failed_count + 1), w1)
      | (Some file_response, w1) \<Rightarrow>
          (case add_file_to_vector_store N self (fo_id file_response) w1 of
             (Some vs_response, w2) \<Rightarrow> ((uploaded_count + 1, failed_count), w2)
           | (None, w2) \<Rightarrow> ((uploaded_count, failed_count + 1), w2)))"

fun upload_loop ::
  "network \<Rightarrow> manager \<Rightarrow> string list \<Rightarrow> (nat \<times> nat) \<times> world \<Rightarrow> (nat \<times> nat) \<times> world" where
  "upload_loop N self [] cw = cw"
| "upload_loop N self (file_path # rest) cw = upload_loop N self rest (upload_one N self file_path cw)"

definition upload_delta_files ::
  "network \<Rightarrow> manager \<Rightarrow> string list \<Rightarrow> string \<Rightarrow> world \<Rightarrow> upload_result \<times> world" where
  "upload_delta_files N self new_filenames articles_dir w =
     (if new_filenames = [] then (\<lparr>uploaded = 0, failed_uploads = 0, total = 0\<rparr>, w)
      else
        (let file_paths = map (os_path_join articles_dir) new_filenames;
             cw = upload_loop N self file_paths ((0, 0), w)
         in (\<lparr>uploaded = fst (fst cw), failed_uploads = snd (fst cw), total = length file_paths\<rparr>,
             snd cw)))"

section \<open>The pipeline\<close>

text \<open>\<^verbatim>\<open>OptiSignsScraper()\<close>: a new scraper object has a converter that has handled nothing.\<close>

definition OptiSignsScraper :: "world \<Rightarrow> world" where
  "OptiSignsScraper w = w\<lparr>h2t := []\<rparr>"

text \<open>
  \<^verbatim>\<open>main\<close> returns its exit code. An exception of \<^verbatim>\<open>scrape_all\<close> is caught and the
  run goes on with no new article; the manager is built only when there is one.
\<close>

definition main :: "library \<Rightarrow> network \<Rightarrow> world \<Rightarrow> (nat \<times> world) option" where
  "main L N w =
     (case scrape_all L N 50 (OptiSignsScraper w) of
        None \<Rightarrow> None
      | Some (r, w1) \<Rightarrow>
          (let new = (case r of Inl e \<Rightarrow> [] | Inr res \<Rightarrow> fst (snd res)) in
           if new \<noteq> [] then
             (case VectorStoreManager N of
                Inl e \<Rightarrow> Some (1, w1)
              | Inr manager \<Rightarrow> Some (0, snd (upload_delta_files N manager new ''articles'' w1)))
           else Some (0, w1)))"

section \<open>Notions used to state the properties\<close>

text \<open>
  A page answer after which the lister asks for the next page: status 200, at least one
  article and a next page. \<open>page_items\<close> is what an answer adds to the list.
\<close>

definition continues :: "page reply \<Rightarrow> bool" where
  "continues r =
     (case r of
        Raised \<Rightarrow> False
      | Reply code data \<Rightarrow> code = 200 \<and> p_articles data \<noteq> [] \<and> p_next_page data)"

definition page_items :: "page reply \<Rightarrow> descriptor list" where
  "page_items r =
     (case r of
        Raised \<Rightarrow> []
      | Reply code data \<Rightarrow> if code = 200 then p_articles data else [])"

definition is_upload :: "request \<Rightarrow> bool" where
  "is_upload r =
     (case r of
        PostFile n c \<Rightarrow> True
      | PostVectorStoreFile v f \<Rightarrow> True
      | GetArticles p n \<Rightarrow> False
      | GetArticle a \<Rightarrow> False)"

text \<open>
  From \<open>w\<close> to \<open>w'\<close> no file and not the converter changed, and only catalog and article
  requests were sent.
\<close>

definition reads_only :: "world \<Rightarrow> world \<Rightarrow> bool" where
  "reads_only w w' =
     (metadata_file w' = metadata_file w \<and> fs w' = fs w \<and> h2t w' = h2t w \<and>
      (\<exists>rs. requests w' = requests w @ rs \<and> (\<forall>r \<in> set rs. \<not> is_upload r)))"

text \<open>An entry of the classifications whose file goes to the delta.\<close>

definition changed :: "string \<times> classification \<Rightarrow> bool" where
  "changed e = (snd e = Added \<or> snd e = Updated)"

text \<open>The delta and the four counters agree with the classifications made so far.\<close>

definition delta_inv :: "scrape_state \<Rightarrow> bool" where
  "delta_inv s =
     (new_articles s = map (\<lambda>e. md_filename (fst e)) (filter changed (classified s)) \<and>
      added (counts s) = length (filter (\<lambda>e. snd e = Added) (classified s)) \<and>
      updated (counts s) = length (filter (\<lambda>e. snd e = Updated) (classified s)) \<and>
      skipped (counts s) = length (filter (\<lambda>e. snd e = Unchanged) (classified s)) \<and>
      failed (counts s) = length (filter (\<lambda>e. snd e = Failed) (classified s)))"


text \<open>Every record of \<open>m\<close> is still in \<open>m'\<close>, with its url, title and filename.\<close>

definition keeps_identity :: "metadata \<Rightarrow> metadata \<Rightarrow> bool" where
  "keeps_identity m m' =
     (\<forall>a r. m a = Some r \<longrightarrow>
        (\<exists>r'. m' a = Some r' \<and> m_url r' = m_url r \<and> m_title r' = m_title r \<and>
              m_filename r' = m_filename r))"

text \<open>
  The markdown of the last turn of an article in which \<^verbatim>\<open>scrape_article\<close> returned one.
\<close>

fun last_markdown :: "string \<Rightarrow> (string \<times> string option) list \<Rightarrow> string option" where
  "last_markdown article_id [] = None"
| "last_markdown article_id (e # rest) =
     (case last_markdown article_id rest of
        Some m \<Rightarrow> Some m
      | None \<Rightarrow> if fst e = article_id then snd e else None)"

text \<open>The store holds the fingerprint of the markdown \<open>m\<close> for this article id.\<close>

definition stored :: "library \<Rightarrow> string \<Rightarrow> string \<Rightarrow> metadata \<Rightarrow> bool" where
  "stored L article_id m md = (\<exists>r. md article_id = Some r \<and> m_hash r = md5_hexdigest L m)"

text \<open>
  The store holds the fingerprint of the last markdown that the run has scraped for the
  article, if it has scraped one.
\<close>

definition first_run_inv :: "library \<Rightarrow> string \<Rightarrow> scrape_state \<Rightarrow> bool" where
  "first_run_inv L aid s =
     (case last_markdown aid (scraped s) of
        None \<Rightarrow> True
      | Some m \<Rightarrow> stored L aid m (metadata s))"

text \<open>
  In a run that starts with the fingerprint of \<open>m\<close> stored: the article is only ever
  classified Unchanged and its file is not in the delta.
\<close>

definition second_run_inv :: "library \<Rightarrow> string \<Rightarrow> string \<Rightarrow> scrape_state \<Rightarrow> bool" where
  "second_run_inv L aid m s =
     (stored L aid m (metadata s) \<and>
      (\<forall>c. (aid, c) \<in> set (classified s) \<longrightarrow> c = Unchanged) \<and>
      md_filename aid \<notin> set (new_articles s))"

text \<open>The list \<^verbatim>\<open>new_articles\<close> that \<^verbatim>\<open>main\<close> gets from \<^verbatim>\<open>scrape_all\<close>.\<close>

definition delta_of :: "((error + scrape_result) \<times> world) option \<Rightarrow> string list" where
  "delta_of x = (case x of Some (Inr res, w) \<Rightarrow> fst (snd res) | _ \<Rightarrow> [])"

text \<open>The condition \<^verbatim>\<open>not self.api_key\<close> of \<^verbatim>\<open>VectorStoreManager.__init__\<close>.\<close>

definition key_missing :: "network \<Rightarrow> bool" where
  "key_missing N = (OPENAI_API_KEY N = None \<or> OPENAI_API_KEY N = Some [])"

section \<open>A small service for examples\<close>

text \<open>
  A library that converts and hashes by the identity, and a service with one catalog page:
  article 7 has the body x, article 8 answers 404, any other article has a blank body.
  Files are registered, but attaching them fails. No key is set.
\<close>

definition demo_library :: library where
  "demo_library = \<lparr>html_to_markdown = (\<lambda>handled s. s), md5_hexdigest = (\<lambda>s. s)\<rparr>"

definition demo_article :: "string \<Rightarrow> article option reply" where
  "demo_article a =
     (if a = ''7'' then
        Reply 200 (Some \<lparr>a_body = ''x'', a_html_url = ''u'', a_title = ''T'', a_updated_at = []\<rparr>)
      else if a = ''8'' then Reply 404 None
      else Reply 200 (Some \<lparr>a_body = '' '', a_html_url = ''v'', a_title = ''S'', a_updated_at = []\<rparr>))"

definition demo_net :: "descriptor list \<Rightarrow> network" where
  "demo_net ds =
     \<lparr>articles_json = (\<lambda>t p n. Reply 200 \<lparr>p_articles = ds, p_next_page = False\<rparr>),
      article_json = (\<lambda>t. demo_article),
      files_post = (\<lambda>t n c. Reply 200 (Some \<lparr>fo_id = Some ''f''\<rparr>)),
      vector_store_files_post = (\<lambda>t v f. Reply 500 None),
      now = (\<lambda>t. ''now''),
      OPENAI_API_KEY = None,
      VECTOR_STORE_ID = None\<rparr>"

definition d7 :: descriptor where
  "d7 = \<lparr>d_id = 7, d_title = ''T''\<rparr>"

definition d8 :: descriptor where
  "d8 = \<lparr>d_id = 8, d_title = ''E''\<rparr>"

definition d9 :: descriptor where
  "d9 = \<lparr>d_id = 9, d_title = ''S''\<rparr>"

text \<open>
  A library whose converter keeps state: once it has handled a document, it ends what it
  returns with an exclamation mark.
\<close>

definition leaky_library :: library where
  "leaky_library =
     \<lparr>html_to_markdown = (\<lambda>handled s. if handled = [] then s else s @ ''!''),
      md5_hexdigest = (\<lambda>s. s)\<rparr>"

text \<open>A catalog of two pages whose second page answers 500.\<close>

definition paged_net :: network where
  "paged_net =
     (demo_net [])\<lparr>articles_json :=
        (\<lambda>t p n. if p = 1 then Reply 200 \<lparr>p_articles = [d7], p_next_page = True\<rparr>
                 else Reply 500 \<lparr>p_articles = [], p_next_page = False\<rparr>)\<rparr>"

definition empty_world :: world where
  "empty_world = \<lparr>metadata_file = Absent, fs = Map.empty, requests = [], h2t = []\<rparr>"

definition md7 :: string where
  "md7 = ''Article URL: u'' @ [newline, newline] @ ''x''"

definition data7 :: article_data where
  "data7 = \<lparr>ad_markdown = md7, ad_hash = md7, ad_url = ''u'', ad_title = ''T'',
            ad_updated_at = [], ad_scraped_at = ''now''\<rparr>"

definition record7 :: fingerprint_record where
  "record7 = \<lparr>m_hash = md7, m_url = ''u'', m_title = ''T'', m_filename = ''7.md'',
              m_last_updated = ''now''\<rparr>"

text \<open>The world after a first run on the catalog of article 7 alone.\<close>

definition world_after_7 :: world where
  "world_after_7 =
     \<lparr>metadata_file = Written [''7'' \<mapsto> record7],
      fs = [''articles/7.md'' \<mapsto> md7],
      requests = [GetArticles 1 100, GetArticle ''7''],
      h2t = [''x'']\<rparr>"

definition demo_manager :: manager where
  "demo_manager = \<lparr>api_key = ''k'', vector_store_id = None\<rparr>"


definition loop_state_7 :: scrape_state where
  "loop_state_7 =
     \<lparr>metadata = [''7'' \<mapsto> record7],
      counts = \<lparr>added = 0, updated = 0, skipped = 1, failed = 0\<rparr>,
      new_articles = [],
      classified = [(''7'', Unchanged)],
      scraped = [(''7'', Some md7)]\<rparr>"

section \<open>Requests and the world\<close>

lemma length_requests_send [simp]: "length (requests (send r w)) = Suc (length (requests w))"
  by (simp add: send_def)

lemma fs_send [simp]: "fs (send r w) = fs w"
  by (simp add: send_def)

lemma metadata_file_send [simp]: "metadata_file (send r w) = metadata_file w"
  by (simp add: send_def)

lemma requests_send [simp]: "requests (send r w) = requests w @ [r]"
  by (simp add: send_def)

lemma h2t_send [simp]: "h2t (send r w) = h2t w"
  by (simp add: send_def)

section \<open>The uploader counts every file once\<close>

lemma upload_one_counts:
  "fst (fst (upload_one N self f cw)) + snd (fst (upload_one N self f cw)) =
   Suc (fst (fst cw) + snd (fst cw))"
  by (simp add: upload_one_def Let_def split: prod.splits option.splits)

lemma upload_loop_counts:
  "fst (fst (upload_loop N self ps cw)) + snd (fst (upload_loop N self ps cw)) =
   fst (fst cw) + snd (fst cw) + length ps"
  by (induction ps arbitrary: cw) (simp_all add: upload_one_counts)

text \<open>
  C9. For every list of filenames, the empty one included, the result of
  \<^verbatim>\<open>upload_delta_files\<close> has uploaded + failed = total, and total is the length of the
  list, whatever the register and attach steps answer.
\<close>

theorem upload_delta_files_total:
  "uploaded (fst (upload_delta_files N self new_filenames articles_dir w)) +
     failed_uploads (fst (upload_delta_files N self new_filenames articles_dir w)) =
   total (fst (upload_delta_files N self new_filenames articles_dir w)) \<and>
   total (fst (upload_delta_files N self new_filenames articles_dir w)) = length new_filenames"
  using upload_loop_counts [of N self "map (os_path_join articles_dir) new_filenames" "((0, 0), w)"]
  by (simp add: upload_delta_files_def Let_def)

lemma upload_loop_append:
  "upload_loop N self (xs @ ys) cw = upload_loop N self ys (upload_loop N self xs cw)"
  by (induction xs arbitrary: cw) simp_all

lemma upload_file_Some:
  "upload_file N self p w = (Some fr, w1) \<Longrightarrow>
   \<exists>content. fs w p = Some content \<and> w1 = send (PostFile (basename p) content) w"
  by (auto simp: upload_file_def split: option.splits reply.splits if_splits)

lemma add_file_world:
  "snd (add_file_to_vector_store N self fid w) = send (PostVectorStoreFile (vector_store_id self) fid) w"
  by (simp add: add_file_to_vector_store_def split: reply.splits)

lemma upload_one_bounds:
  "snd (fst cw) \<le> snd (fst (upload_one N self p cw)) \<and>
   fst (fst (upload_one N self p cw)) \<le> Suc (fst (fst cw))"
  by (simp add: upload_one_def Let_def split: prod.splits option.splits)

lemma upload_loop_bounds:
  "snd (fst cw) \<le> snd (fst (upload_loop N self ps cw)) \<and>
   fst (fst (upload_loop N self ps cw)) \<le> fst (fst cw) + length ps"
proof (induction ps arbitrary: cw)
  case Nil
  then show ?case by simp
next
  case (Cons p ps)
  show ?case
    using Cons.IH [of "upload_one N self p cw"] upload_one_bounds [of cw N self p]
    by simp
qed

lemma add_file_fs [simp]: "fs (snd (add_file_to_vector_store N self fid w)) = fs w"
  by (simp add: add_file_world)

lemma add_file_requests [simp]:
  "requests (snd (add_file_to_vector_store N self fid w)) =
   requests w @ [PostVectorStoreFile (vector_store_id self) fid]"
  by (simp add: add_file_world)

lemma upload_file_fs [simp]: "fs (snd (upload_file N self p w)) = fs w"
  by (simp add: upload_file_def split: option.splits reply.splits)

lemma upload_file_requests:
  "requests (snd (upload_file N self p w)) =
   requests w @ (case fs w p of None \<Rightarrow> [] | Some c \<Rightarrow> [PostFile (basename p) c])"
  by (simp add: upload_file_def split: option.splits reply.splits)

lemma snd_upload_one:
  "snd (upload_one N self p cw) =
     (case fst (upload_file N self p (snd cw)) of
        None \<Rightarrow> snd (upload_file N self p (snd cw))
      | Some fr \<Rightarrow>
          snd (add_file_to_vector_store N self (fo_id fr) (snd (upload_file N self p (snd cw)))))"
  by (simp add: upload_one_def Let_def split: prod.splits option.splits)

lemma upload_one_world:
  "fs (snd (upload_one N self p cw)) = fs (snd cw) \<and>
   (\<exists>rs. requests (snd (upload_one N self p cw)) = requests (snd cw) @ rs)"
  by (simp add: snd_upload_one upload_file_requests split: option.splits)

lemma upload_one_attempt:
  "fs (snd cw) p = Some c \<Longrightarrow>
   PostFile (basename p) c \<in> set (requests (snd (upload_one N self p cw)))"
  by (simp add: snd_upload_one upload_file_requests split: option.splits)

lemma upload_loop_world:
  "fs (snd (upload_loop N self ps cw)) = fs (snd cw) \<and>
   set (requests (snd cw)) \<subseteq> set (requests (snd (upload_loop N self ps cw)))"
proof (induction ps arbitrary: cw)
  case Nil
  then show ?case by simp
next
  case (Cons p ps)
  show ?case
    using Cons.IH [of "upload_one N self p cw"] upload_one_world [of N self p cw]
    by auto
qed

lemma upload_loop_attempts:
  "p \<in> set ps \<Longrightarrow> fs (snd cw) p = Some c \<Longrightarrow>
   PostFile (basename p) c \<in> set (requests (snd (upload_loop N self ps cw)))"
proof (induction ps arbitrary: cw)
  case Nil
  then show ?case by simp
next
  case (Cons q ps)
  have f: "fs (snd (upload_one N self q cw)) p = Some c"
    using Cons.prems(2) upload_one_world [of N self q cw] by simp
  show ?case
  proof (cases "p = q")
    case True
    then have "PostFile (basename p) c \<in> set (requests (snd (upload_one N self q cw)))"
      using upload_one_attempt [OF Cons.prems(2), of N self] by simp
    then show ?thesis
      using upload_loop_world [of N self ps "upload_one N self q cw"] by auto
  next
    case False
    then have "p \<in> set ps" using Cons.prems(1) by simp
    then show ?thesis using Cons.IH [OF _ f] by simp
  qed
qed

text \<open>
  C6. When the turn of a filename comes, if registering its file succeeds and attaching
  it does not, the turn adds one to the failed counter and nothing to the uploaded one,
  sends the register request and the attach request and no other request, leaves the
  files alone, and the loop goes on with the filenames that follow: the result of
  \<^verbatim>\<open>upload_delta_files\<close> is the counters and the world that the loop over the following
  filenames reaches from there, and the file of every following filename that exists is
  sent for registering. In the result the failed count is above the failures before the
  turn, and the uploaded count is at most the uploads before the turn plus the number of
  filenames that follow.
\<close>

theorem attach_failure_counted:
  assumes "new_filenames = pre @ f # post"
    and "upload_loop N self (map (os_path_join articles_dir) pre) ((0, 0), w) = ((u, k), w1)"
    and "upload_file N self (os_path_join articles_dir f) w1 = (Some file_response, w2)"
    and "fst (add_file_to_vector_store N self (fo_id file_response) w2) = None"
  shows "\<exists>content w3.
     fs w1 (os_path_join articles_dir f) = Some content \<and>
     upload_one N self (os_path_join articles_dir f) ((u, k), w1) = ((u, k + 1), w3) \<and>
     requests w3 = requests w1 @
        [PostFile (basename (os_path_join articles_dir f)) content,
         PostVectorStoreFile (vector_store_id self) (fo_id file_response)] \<and>
     fs w3 = fs w1 \<and>
     upload_loop N self (map (os_path_join articles_dir) new_filenames) ((0, 0), w) =
       upload_loop N self (map (os_path_join articles_dir) post) ((u, k + 1), w3) \<and>
     fst (upload_delta_files N self new_filenames articles_dir w) =
       \<lparr>uploaded =
          fst (fst (upload_loop N self (map (os_path_join articles_dir) post) ((u, k + 1), w3))),
        failed_uploads =
          snd (fst (upload_loop N self (map (os_path_join articles_dir) post) ((u, k + 1), w3))),
        total = length new_filenames\<rparr> \<and>
     snd (upload_delta_files N self new_filenames articles_dir w) =
       snd (upload_loop N self (map (os_path_join articles_dir) post) ((u, k + 1), w3)) \<and>
     (\<forall>g \<in> set post. \<forall>c. fs w1 (os_path_join articles_dir g) = Some c \<longrightarrow>
        PostFile (basename (os_path_join articles_dir g)) c \<in>
          set (requests (snd (upload_delta_files N self new_filenames articles_dir w)))) \<and>
     k + 1 \<le> failed_uploads (fst (upload_delta_files N self new_filenames articles_dir w)) \<and>
     uploaded (fst (upload_delta_files N self new_filenames articles_dir w)) \<le> u + length post"
proof -
  let ?p = "os_path_join articles_dir f"
  let ?post = "map (os_path_join articles_dir) post"
  obtain content where c: "fs w1 ?p = Some content" "w2 = send (PostFile (basename ?p) content) w1"
    using upload_file_Some [OF assms(3)] by blast
  let ?w3 = "send (PostVectorStoreFile (vector_store_id self) (fo_id file_response)) w2"
  have x: "add_file_to_vector_store N self (fo_id file_response) w2 = (None, ?w3)"
    using assms(4) add_file_world [of N self "fo_id file_response" w2]
    by (cases "add_file_to_vector_store N self (fo_id file_response) w2") simp
  have one: "upload_one N self ?p ((u, k), w1) = ((u, k + 1), ?w3)"
    by (simp add: upload_one_def assms(3) x)
  have l: "upload_loop N self (map (os_path_join articles_dir) new_filenames) ((0, 0), w) =
        upload_loop N self ?post ((u, k + 1), ?w3)"
    by (simp add: assms(1) upload_loop_append assms(2) one)
  have n: "new_filenames \<noteq> []" using assms(1) by simp
  have r1: "fst (upload_delta_files N self new_filenames articles_dir w) =
       \<lparr>uploaded = fst (fst (upload_loop N self ?post ((u, k + 1), ?w3))),
        failed_uploads = snd (fst (upload_loop N self ?post ((u, k + 1), ?w3))),
        total = length new_filenames\<rparr>"
    using n by (simp add: upload_delta_files_def Let_def l)
  have r2: "snd (upload_delta_files N self new_filenames articles_dir w) =
       snd (upload_loop N self ?post ((u, k + 1), ?w3))"
    using n by (simp add: upload_delta_files_def Let_def l)
  have f3: "fs ?w3 = fs w1" by (simp add: c(2))
  have at: "\<forall>g \<in> set post. \<forall>c. fs w1 (os_path_join articles_dir g) = Some c \<longrightarrow>
        PostFile (basename (os_path_join articles_dir g)) c \<in>
          set (requests (snd (upload_delta_files N self new_filenames articles_dir w)))"
  proof (intro ballI allI impI)
    fix g c
    assume g: "g \<in> set post" and fc: "fs w1 (os_path_join articles_dir g) = Some c"
    have "os_path_join articles_dir g \<in> set ?post" using g by simp
    moreover have "fs (snd ((u, k + 1), ?w3)) (os_path_join articles_dir g) = Some c"
      using fc f3 by simp
    ultimately show "PostFile (basename (os_path_join articles_dir g)) c \<in>
          set (requests (snd (upload_delta_files N self new_filenames articles_dir w)))"
      unfolding r2 by (rule upload_loop_attempts)
  qed
  have b: "k + 1 \<le> failed_uploads (fst (upload_delta_files N self new_filenames articles_dir w)) \<and>
     uploaded (fst (upload_delta_files N self new_filenames articles_dir w)) \<le> u + length post"
    using upload_loop_bounds [of "((u, k + 1), ?w3)" N self ?post]
    by (simp add: r1)
  have rq: "requests ?w3 = requests w1 @
        [PostFile (basename ?p) content,
         PostVectorStoreFile (vector_store_id self) (fo_id file_response)]"
    by (simp add: c(2))
  show ?thesis
    by (rule exI [where x = content], rule exI [where x = ?w3])
       (intro conjI c(1) one rq f3 l r1 r2 at b [THEN conjunct1] b [THEN conjunct2])
qed

section \<open>The scraper, one turn at a time\<close>

lemma reads_only_refl: "reads_only w w"
  by (simp add: reads_only_def)

lemma reads_only_send: "\<not> is_upload r \<Longrightarrow> reads_only w (send r w)"
  by (auto simp: reads_only_def)

lemma reads_only_trans: "reads_only w w1 \<Longrightarrow> reads_only w1 w2 \<Longrightarrow> reads_only w w2"
  by (auto simp: reads_only_def)

lemma fetch_article_content_world:
  "snd (fetch_article_content N i w) = send (GetArticle (str_int i)) w"
  by (simp add: fetch_article_content_def split: reply.splits)

text \<open>A scrape sends one request and may use the converter; it leaves the files alone.\<close>

lemma requests_scrape_article [simp]:
  "requests (snd (scrape_article L N d w)) = requests w @ [GetArticle (str_int (d_id d))]"
  using fetch_article_content_world [of N "d_id d" w]
  by (auto simp: scrape_article_def Let_def split: prod.splits option.splits)

lemma fs_scrape_article [simp]: "fs (snd (scrape_article L N d w)) = fs w"
  using fetch_article_content_world [of N "d_id d" w]
  by (auto simp: scrape_article_def Let_def split: prod.splits option.splits)

lemma metadata_file_scrape_article [simp]:
  "metadata_file (snd (scrape_article L N d w)) = metadata_file w"
  using fetch_article_content_world [of N "d_id d" w]
  by (auto simp: scrape_article_def Let_def split: prod.splits option.splits)

text \<open>The four outcomes of one turn.\<close>

lemma scrape_one_Failed:
  "fst (scrape_article L N d w) = None \<Longrightarrow>
   scrape_one L N d (s, w) =
     (s\<lparr>counts := (counts s)\<lparr>failed := failed (counts s) + 1\<rparr>,
        classified := classified s @ [(str_int (d_id d), Failed)],
        scraped := scraped s @ [(str_int (d_id d), None)]\<rparr>,
      snd (scrape_article L N d w))"
  by (cases "scrape_article L N d w") (simp add: scrape_one_def Let_def)

lemma scrape_one_Added:
  "fst (scrape_article L N d w) = Some data \<Longrightarrow> metadata s (str_int (d_id d)) = None \<Longrightarrow>
   scrape_one L N d (s, w) =
     (s\<lparr>counts := (counts s)\<lparr>added := added (counts s) + 1\<rparr>,
        metadata := (metadata s)(str_int (d_id d) \<mapsto>
           \<lparr>m_hash = ad_hash data, m_url = ad_url data, m_title = ad_title data,
            m_filename = md_filename (str_int (d_id d)), m_last_updated = ad_scraped_at data\<rparr>),
        new_articles := new_articles s @ [md_filename (str_int (d_id d))],
        classified := classified s @ [(str_int (d_id d), Added)],
        scraped := scraped s @ [(str_int (d_id d), Some (ad_markdown data))]\<rparr>,
      save_article data (md_filename (str_int (d_id d))) (snd (scrape_article L N d w)))"
  by (cases "scrape_article L N d w") (simp add: scrape_one_def Let_def)

lemma scrape_one_Updated:
  "fst (scrape_article L N d w) = Some data \<Longrightarrow> metadata s (str_int (d_id d)) = Some r \<Longrightarrow>
   m_hash r \<noteq> ad_hash data \<Longrightarrow>
   scrape_one L N d (s, w) =
     (s\<lparr>counts := (counts s)\<lparr>updated := updated (counts s) + 1\<rparr>,
        metadata := (metadata s)(str_int (d_id d) \<mapsto>
           r\<lparr>m_hash := ad_hash data, m_last_updated := ad_scraped_at data\<rparr>),
        new_articles := new_articles s @ [md_filename (str_int (d_id d))],
        classified := classified s @ [(str_int (d_id d), Updated)],
        scraped := scraped s @ [(str_int (d_id d), Some (ad_markdown data))]\<rparr>,
      save_article data (md_filename (str_int (d_id d))) (snd (scrape_article L N d w)))"
  by (cases "scrape_article L N d w") (simp add: scrape_one_def Let_def)

lemma scrape_one_Unchanged:
  "fst (scrape_article L N d w) = Some data \<Longrightarrow> metadata s (str_int (d_id d)) = Some r \<Longrightarrow>
   m_hash r = ad_hash data \<Longrightarrow>
   scrape_one L N d (s, w) =
     (s\<lparr>counts := (counts s)\<lparr>skipped := skipped (counts s) + 1\<rparr>,
        classified := classified s @ [(str_int (d_id d), Unchanged)],
        scraped := scraped s @ [(str_int (d_id d), Some (ad_markdown data))]\<rparr>,
      snd (scrape_article L N d w))"
  by (cases "scrape_article L N d w") (simp add: scrape_one_def Let_def)

lemma scrape_one_cases:
  obtains
    (Failed) "fst (scrape_article L N d w) = None"
  | (Added) data where "fst (scrape_article L N d w) = Some data" "metadata s (str_int (d_id d)) = None"
  | (Updated) data r where "fst (scrape_article L N d w) = Some data"
      "metadata s (str_int (d_id d)) = Some r" "m_hash r \<noteq> ad_hash data"
  | (Unchanged) data r where "fst (scrape_article L N d w) = Some data"
      "metadata s (str_int (d_id d)) = Some r" "m_hash r = ad_hash data"
  by (cases "fst (scrape_article L N d w)"; cases "metadata s (str_int (d_id d))") auto


text \<open>The delta and the counters follow the classifications.\<close>

lemma delta_inv_init: "delta_inv (init_state m)"
  by (simp add: delta_inv_def init_state_def zero_stats_def)

lemma delta_inv_one: "delta_inv s \<Longrightarrow> delta_inv (fst (scrape_one L N d (s, w)))"
  by (cases rule: scrape_one_cases [where L = L and N = N and d = d and w = w and s = s])
     (simp_all add: scrape_one_Failed scrape_one_Added scrape_one_Updated scrape_one_Unchanged
        delta_inv_def changed_def)

lemma delta_inv_loop: "delta_inv (fst sw) \<Longrightarrow> delta_inv (fst (scrape_loop L N ds sw))"
proof (induction ds arbitrary: sw)
  case Nil
  then show ?case by simp
next
  case (Cons d ds)
  have "delta_inv (fst (scrape_one L N d sw))"
    using delta_inv_one [of "fst sw" L N d "snd sw"] Cons.prems by simp
  then show ?case using Cons.IH by simp
qed

lemma length_changed:
  "length (filter changed cl) =
   length (filter (\<lambda>e. snd e = Added) cl) + length (filter (\<lambda>e. snd e = Updated) cl)"
  by (induction cl) (auto simp: changed_def)

lemma scrape_all_delta_inv:
  assumes "scrape_all L N limit w = Some (Inr (st, new, cl, ms), w')"
  shows "\<exists>s. delta_inv s \<and> st = counts s \<and> new = new_articles s \<and> cl = classified s"
proof -
  obtain all_articles w1 where l: "fetch_articles_list N 100 w = Some (all_articles, w1)"
    using assms by (auto simp: scrape_all_def split: option.splits)
  show ?thesis
  proof (cases "all_articles = []")
    case True
    then have "st = counts (init_state Map.empty) \<and> new = new_articles (init_state Map.empty)
       \<and> cl = classified (init_state Map.empty)"
      using assms l by (simp add: scrape_all_def init_state_def)
    then show ?thesis using delta_inv_init by blast
  next
    case False
    then obtain m where m: "load_metadata w1 = Inr m"
      using assms l by (auto simp: scrape_all_def split: sum.splits)
    let ?sw = "scrape_loop L N (slice_to limit all_articles) (init_state m, w1)"
    have "delta_inv (fst ?sw)"
      using delta_inv_loop [of "(init_state m, w1)"] delta_inv_init by simp
    moreover have "st = counts (fst ?sw) \<and> new = new_articles (fst ?sw) \<and> cl = classified (fst ?sw)"
      using assms l m False by (simp add: scrape_all_def Let_def result_of_def)
    ultimately show ?thesis by blast
  qed
qed

text \<open>
  C1, as amended. After a run of \<^verbatim>\<open>scrape_all\<close> that returns, the delta is the list of
  the filenames of the entries classified Added or Updated, in turn; its length is the
  added count plus the updated count; each counter is the number of entries with its
  classification. When the processed article ids are pairwise distinct, no filename of
  an article classified Unchanged or Failed is in the delta.
\<close>

theorem delta_is_added_and_updated:
  assumes "scrape_all L N limit w = Some (Inr (st, new, cl, ms), w')"
  shows "new = map (\<lambda>e. md_filename (fst e)) (filter changed cl) \<and>
         length new = added st + updated st \<and>
         added st = length (filter (\<lambda>e. snd e = Added) cl) \<and>
         updated st = length (filter (\<lambda>e. snd e = Updated) cl) \<and>
         skipped st = length (filter (\<lambda>e. snd e = Unchanged) cl) \<and>
         failed st = length (filter (\<lambda>e. snd e = Failed) cl) \<and>
         (distinct (map fst cl) \<longrightarrow>
            (\<forall>e \<in> set cl. snd e = Unchanged \<or> snd e = Failed \<longrightarrow> md_filename (fst e) \<notin> set new))"
proof -
  obtain s where s: "delta_inv s" "st = counts s" "new = new_articles s" "cl = classified s"
    using scrape_all_delta_inv [OF assms] by blast
  have n: "new = map (\<lambda>e. md_filename (fst e)) (filter changed cl)"
    using s by (simp add: delta_inv_def)
  have len: "length new = added st + updated st"
    using s n length_changed [of cl] by (simp add: delta_inv_def)
  have d: "md_filename (fst e) \<notin> set new"
    if dis: "distinct (map fst cl)" and e: "e \<in> set cl" and u: "snd e = Unchanged \<or> snd e = Failed" for e
  proof
    assume "md_filename (fst e) \<in> set new"
    then obtain e' where e': "e' \<in> set cl" "changed e'" "md_filename (fst e') = md_filename (fst e)"
      using n by auto
    then have "fst e' = fst e" by (simp add: md_filename_def)
    then have "snd e' = snd e"
      using eq_key_imp_eq_value [OF dis, of "fst e" "snd e'" "snd e"] e e' by (metis prod.collapse)
    then show False using e'(2) u by (auto simp: changed_def)
  qed
  show ?thesis using s n len d by (simp add: delta_inv_def)
qed


lemma scrape_article_hash:
  "fst (scrape_article L N d w) = Some data \<Longrightarrow> ad_hash data = md5_hexdigest L (ad_markdown data)"
  by (auto simp: scrape_article_def get_article_hash_def Let_def split: prod.splits option.splits if_splits)



lemma metadata_file_save_article [simp]: "metadata_file (save_article data f w) = metadata_file w"
  by (simp add: save_article_def)

lemma requests_save_article [simp]: "requests (save_article data f w) = requests w"
  by (simp add: save_article_def)

lemma fs_save_article [simp]:
  "fs (save_article data f w) = (fs w)(os_path_join ''articles'' f \<mapsto> ad_markdown data)"
  by (simp add: save_article_def)



lemma keeps_identity_refl: "keeps_identity m m"
  by (simp add: keeps_identity_def)

lemma keeps_identity_trans: "keeps_identity a b \<Longrightarrow> keeps_identity b c \<Longrightarrow> keeps_identity a c"
  unfolding keeps_identity_def by (metis (no_types, lifting))

lemma keeps_identity_dom: "keeps_identity m m' \<Longrightarrow> dom m \<subseteq> dom m'"
  by (auto simp: keeps_identity_def)

lemma scrape_one_keeps:
  "keeps_identity (metadata s) (metadata (fst (scrape_one L N d (s, w)))) \<and>
   metadata_file (snd (scrape_one L N d (s, w))) = metadata_file w"
  by (cases rule: scrape_one_cases [where L = L and N = N and d = d and w = w and s = s])
     (simp_all add: scrape_one_Failed scrape_one_Added scrape_one_Updated scrape_one_Unchanged
        keeps_identity_def)

lemma scrape_loop_keeps:
  "keeps_identity (metadata (fst sw)) (metadata (fst (scrape_loop L N ds sw))) \<and>
   metadata_file (snd (scrape_loop L N ds sw)) = metadata_file (snd sw)"
proof (induction ds arbitrary: sw)
  case Nil
  then show ?case by (simp add: keeps_identity_refl)
next
  case (Cons d ds)
  show ?case
    using Cons.IH [of "scrape_one L N d sw"] scrape_one_keeps [of s L N d "snd sw" for s, of "fst sw"]
    by (auto intro: keeps_identity_trans)
qed

lemma fetch_articles_loop_reads_only:
  assumes "fetch_articles_loop N pp p acc w = Some y"
  shows "reads_only w (snd y)"
proof (rule fetch_articles_loop.raw_induct
    [where P = "\<lambda>N pp p acc w y. reads_only w (snd y)", OF _ assms], goal_cases)
  case (1 loop N pp p acc w y)
  have g: "\<not> is_upload (GetArticles p pp)" by (simp add: is_upload_def)
  from 1(2) show ?case
    by (auto split: reply.splits if_splits
        intro: reads_only_send [OF g] reads_only_trans [OF reads_only_send [OF g]] dest: 1(1))
qed

lemma fetch_articles_list_reads_only:
  "fetch_articles_list N pp w = Some (ds, w1) \<Longrightarrow> reads_only w w1"
  using fetch_articles_loop_reads_only [of N pp 1 "[]" w "(ds, w1)"]
  by (simp add: fetch_articles_list_def)

lemma load_metadata_cong: "metadata_file w1 = metadata_file w \<Longrightarrow> load_metadata w1 = load_metadata w"
  by (simp add: load_metadata_def)

lemma load_save_metadata [simp]: "load_metadata (save_metadata m w) = Inr m"
  by (simp add: load_metadata_def save_metadata_def json_dump_def open_w_def)

text \<open>
  C10. After a run of \<^verbatim>\<open>scrape_all\<close> that returns, the store that can be loaded
  contains every article id that could be loaded before the run, each with the url, title
  and filename it had.
\<close>

theorem store_never_shrinks:
  assumes "scrape_all L N limit w = Some (Inr res, w')"
    and "load_metadata w = Inr m"
  shows "\<exists>m'. load_metadata w' = Inr m' \<and> dom m \<subseteq> dom m' \<and> keeps_identity m m'"
proof -
  obtain all_articles w1 where l: "fetch_articles_list N 100 w = Some (all_articles, w1)"
    using assms(1) by (auto simp: scrape_all_def split: option.splits)
  have f: "metadata_file w1 = metadata_file w"
    using fetch_articles_list_reads_only [OF l] by (simp add: reads_only_def)
  have m1: "load_metadata w1 = Inr m"
    using load_metadata_cong [OF f] assms(2) by simp
  show ?thesis
  proof (cases "all_articles = []")
    case True
    then have "w' = w1" using assms(1) l by (simp add: scrape_all_def)
    then show ?thesis using m1 keeps_identity_refl [of m] by auto
  next
    case False
    let ?sw = "scrape_loop L N (slice_to limit all_articles) (init_state m, w1)"
    have w': "w' = save_metadata (metadata (fst ?sw)) (snd ?sw)"
      using assms(1) l m1 False by (simp add: scrape_all_def Let_def)
    have k: "keeps_identity m (metadata (fst ?sw))"
      using scrape_loop_keeps [of "(init_state m, w1)" L N "slice_to limit all_articles"]
      by (simp add: init_state_def)
    show ?thesis using w' k keeps_identity_dom [OF k] by simp
  qed
qed

lemma scrape_loop_take_file:
  "metadata_file (snd (scrape_loop L N (take k ds) sw)) = metadata_file (snd sw)"
  using scrape_loop_keeps [of sw L N "take k ds"] by simp

text \<open>
  C8, as amended. In a run over a catalog that is not empty, the metadata file stays as it
  was while the descriptors are processed, whatever the number of turns taken; then
  \<^verbatim>\<open>save_metadata\<close> first empties the file and then writes the new store; after the run
  the new store is what loads.
\<close>

theorem store_rewritten_in_place:
  assumes "scrape_all L N limit w = Some (Inr res, w')"
    and "fetch_articles_list N 100 w = Some (all_articles, w1)"
    and "all_articles \<noteq> []"
  shows "\<exists>m s w2.
     load_metadata w = Inr m \<and>
     scrape_loop L N (slice_to limit all_articles) (init_state m, w1) = (s, w2) \<and>
     (\<forall>k. metadata_file (snd (scrape_loop L N (take k (slice_to limit all_articles)) (init_state m, w1)))
          = metadata_file w) \<and>
     map metadata_file (save_metadata_steps (metadata s) w2) = [Emptied, Written (metadata s)] \<and>
     w' = last (save_metadata_steps (metadata s) w2) \<and>
     load_metadata w' = Inr (metadata s)"
proof -
  have f: "metadata_file w1 = metadata_file w"
    using fetch_articles_list_reads_only [OF assms(2)] by (simp add: reads_only_def)
  obtain m where m1: "load_metadata w1 = Inr m"
    using assms by (auto simp: scrape_all_def split: sum.splits)
  then have m: "load_metadata w = Inr m"
    using load_metadata_cong [OF f] by simp
  obtain s w2 where sw: "scrape_loop L N (slice_to limit all_articles) (init_state m, w1) = (s, w2)"
    by (cases "scrape_loop L N (slice_to limit all_articles) (init_state m, w1)")
  have w': "w' = save_metadata (metadata s) w2"
    using assms m1 sw by (simp add: scrape_all_def Let_def)
  have t: "\<forall>k. metadata_file (snd (scrape_loop L N (take k (slice_to limit all_articles)) (init_state m, w1)))
          = metadata_file w"
    by (simp add: scrape_loop_take_file f)
  have st: "map metadata_file (save_metadata_steps (metadata s) w2) = [Emptied, Written (metadata s)]"
    by (simp add: save_metadata_steps_def open_w_def json_dump_def)
  have la: "w' = last (save_metadata_steps (metadata s) w2)"
    by (simp add: w' save_metadata_steps_def save_metadata_def)
  have lo: "load_metadata w' = Inr (metadata s)"
    by (simp add: w')
  show ?thesis
    by (rule exI [where x = m], rule exI [where x = s], rule exI [where x = w2])
       (intro conjI m sw t st la lo)
qed

section \<open>The same content in a second run\<close>

lemma last_markdown_snoc:
  "last_markdown aid (ms @ [e]) =
     (if fst e = aid \<and> snd e \<noteq> None then snd e else last_markdown aid ms)"
  by (induction ms) (auto split: option.splits)

lemma scrape_one_scraped:
  "scraped (fst (scrape_one L N d (s, w))) =
   scraped s @ [(str_int (d_id d), map_option ad_markdown (fst (scrape_article L N d w)))]"
  by (cases rule: scrape_one_cases [where L = L and N = N and d = d and w = w and s = s])
     (simp_all add: scrape_one_Failed scrape_one_Added scrape_one_Updated scrape_one_Unchanged)

lemma scrape_loop_scraped:
  "set (scraped (fst sw)) \<subseteq> set (scraped (fst (scrape_loop L N ds sw)))"
proof (induction ds arbitrary: sw)
  case Nil
  then show ?case by simp
next
  case (Cons d ds)
  show ?case
    using Cons.IH [of "scrape_one L N d sw"] scrape_one_scraped [of L N d "fst sw" "snd sw"]
    by auto
qed

text \<open>One turn keeps the store in step with the last markdown scraped for the article.\<close>

lemma first_run_inv_one:
  assumes "first_run_inv L aid s"
  shows "first_run_inv L aid (fst (scrape_one L N d (s, w)))"
proof (cases rule: scrape_one_cases [where L = L and N = N and d = d and w = w and s = s])
  case Failed
  then show ?thesis
    using assms
    by (auto simp: scrape_one_Failed first_run_inv_def last_markdown_snoc split: option.splits)
next
  case (Added data)
  then show ?thesis
    using assms scrape_article_hash [OF Added(1)]
    by (auto simp: scrape_one_Added first_run_inv_def last_markdown_snoc stored_def
        split: option.splits)
next
  case (Updated data r)
  then show ?thesis
    using assms scrape_article_hash [OF Updated(1)]
    by (auto simp: scrape_one_Updated first_run_inv_def last_markdown_snoc stored_def
        split: option.splits)
next
  case (Unchanged data r)
  then show ?thesis
    using assms scrape_article_hash [OF Unchanged(1)]
    by (auto simp: scrape_one_Unchanged first_run_inv_def last_markdown_snoc stored_def
        split: option.splits)
qed

lemma first_run_inv_loop:
  "first_run_inv L aid (fst sw) \<Longrightarrow> first_run_inv L aid (fst (scrape_loop L N ds sw))"
proof (induction ds arbitrary: sw)
  case Nil
  then show ?case by simp
next
  case (Cons d ds)
  have "first_run_inv L aid (fst (scrape_one L N d sw))"
    using first_run_inv_one [where s = "fst sw" and d = d and w = "snd sw"] Cons.prems by simp
  then show ?case using Cons.IH by simp
qed

text \<open>
  One turn of a run that started with the fingerprint of \<open>m\<close> stored, when the article,
  if it is its turn, is scraped with the markdown \<open>m\<close>.
\<close>

lemma second_run_inv_one:
  assumes i: "second_run_inv L aid m s"
    and t: "str_int (d_id d) = aid \<Longrightarrow>
            map_option ad_markdown (fst (scrape_article L N d w)) = Some m"
  shows "second_run_inv L aid m (fst (scrape_one L N d (s, w)))"
proof (cases "str_int (d_id d) = aid")
  case False
  then have "md_filename (str_int (d_id d)) \<noteq> md_filename aid" by (simp add: md_filename_def)
  then show ?thesis
    using i False unfolding second_run_inv_def stored_def
    by (cases rule: scrape_one_cases [where L = L and N = N and d = d and w = w and s = s])
       (simp_all add: scrape_one_Failed scrape_one_Added scrape_one_Updated scrape_one_Unchanged)
next
  case True
  obtain data where d: "fst (scrape_article L N d w) = Some data" "ad_markdown data = m"
    using t [OF True] by auto
  have h: "ad_hash data = md5_hexdigest L m"
    using scrape_article_hash [OF d(1)] d(2) by simp
  obtain r where r: "metadata s (str_int (d_id d)) = Some r" "m_hash r = ad_hash data"
    using i True h by (auto simp: second_run_inv_def stored_def)
  show ?thesis
    using i True unfolding second_run_inv_def
    by (simp add: scrape_one_Unchanged [OF d(1) r])
qed

lemma second_run_inv_loop:
  "second_run_inv L aid m (fst sw) \<Longrightarrow>
   \<forall>e \<in> set (scraped (fst (scrape_loop L N ds sw))). fst e = aid \<longrightarrow> snd e = Some m \<Longrightarrow>
   second_run_inv L aid m (fst (scrape_loop L N ds sw))"
proof (induction ds arbitrary: sw)
  case Nil
  then show ?case by simp
next
  case (Cons d ds)
  let ?e = "(str_int (d_id d), map_option ad_markdown (fst (scrape_article L N d (snd sw))))"
  have "?e \<in> set (scraped (fst (scrape_one L N d sw)))"
    using scrape_one_scraped [of L N d "fst sw" "snd sw"] by simp
  then have "?e \<in> set (scraped (fst (scrape_loop L N (d # ds) sw)))"
    using scrape_loop_scraped [of "scrape_one L N d sw" L N ds] by auto
  then have t: "str_int (d_id d) = aid \<Longrightarrow>
      map_option ad_markdown (fst (scrape_article L N d (snd sw))) = Some m"
    using Cons.prems(2) by fastforce
  have "second_run_inv L aid m (fst (scrape_one L N d sw))"
    using second_run_inv_one [where s = "fst sw" and w = "snd sw", OF _ t] Cons.prems(1) by simp
  then show ?case using Cons.IH [of "scrape_one L N d sw"] Cons.prems(2) by simp
qed

lemma scrape_all_nonempty:
  assumes "scrape_all L N limit w = Some (Inr (st, new, cl, ms), w')" and "cl \<noteq> []"
  shows "\<exists>ds w1 m s w2. fetch_articles_list N 100 w = Some (ds, w1) \<and> load_metadata w1 = Inr m \<and>
           scrape_loop L N (slice_to limit ds) (init_state m, w1) = (s, w2) \<and>
           cl = classified s \<and> new = new_articles s \<and> ms = scraped s \<and>
           w' = save_metadata (metadata s) w2"
proof -
  obtain ds w1 where l: "fetch_articles_list N 100 w = Some (ds, w1)"
    using assms(1) by (auto simp: scrape_all_def split: option.splits)
  have ne: "ds \<noteq> []" using assms l by (auto simp: scrape_all_def)
  obtain m where m: "load_metadata w1 = Inr m"
    using assms(1) l ne by (auto simp: scrape_all_def split: sum.splits)
  obtain s w2 where sw: "scrape_loop L N (slice_to limit ds) (init_state m, w1) = (s, w2)"
    by (cases "scrape_loop L N (slice_to limit ds) (init_state m, w1)")
  show ?thesis
    using assms(1) l ne m sw by (simp add: scrape_all_def Let_def result_of_def)
qed

lemma load_metadata_h2t [simp]: "load_metadata (w\<lparr>h2t := handled\<rparr>) = load_metadata w"
  by (simp add: load_metadata_def)

text \<open>
  C2. If a run classifies an article Added or Updated, and \<open>m\<close> is the last markdown it
  scraped for the article, then the store it leaves holds the fingerprint of \<open>m\<close>; a
  second run, started from the world the first one left, whatever its converter has
  handled, in which every markdown scraped for the article is \<open>m\<close> again classifies it
  only as Unchanged and does not put its filename in the delta.
\<close>

theorem same_content_is_unchanged:
  assumes run1: "scrape_all L N1 limit1 w0 = Some (Inr (st1, new1, cl1, ms1), w1)"
    and cls: "(aid, c) \<in> set cl1" "c = Added \<or> c = Updated"
    and same1: "last_markdown aid ms1 = Some m"
    and run2: "scrape_all L N2 limit2 (w1\<lparr>h2t := handled\<rparr>) = Some (Inr (st2, new2, cl2, ms2), w2)"
    and same2: "\<forall>e \<in> set ms2. fst e = aid \<longrightarrow> snd e = Some m"
  shows "(\<exists>md r. load_metadata w1 = Inr md \<and> md aid = Some r \<and> m_hash r = md5_hexdigest L m) \<and>
         (\<forall>c'. (aid, c') \<in> set cl2 \<longrightarrow> c' = Unchanged) \<and>
         md_filename aid \<notin> set new2"
proof -
  have "cl1 \<noteq> []" using cls(1) by auto
  then obtain ds w1' m0 s1 w1'' where r1:
    "scrape_loop L N1 (slice_to limit1 ds) (init_state m0, w1') = (s1, w1'')"
    "ms1 = scraped s1" "w1 = save_metadata (metadata s1) w1''"
    using scrape_all_nonempty [OF run1] by blast
  have "first_run_inv L aid (init_state m0)"
    by (simp add: first_run_inv_def init_state_def)
  then have "first_run_inv L aid (fst (scrape_loop L N1 (slice_to limit1 ds) (init_state m0, w1')))"
    using first_run_inv_loop [of L aid "(init_state m0, w1')"] by simp
  then have st: "stored L aid m (metadata s1)"
    using r1(1,2) same1 by (simp add: first_run_inv_def)
  have lw1: "load_metadata w1 = Inr (metadata s1)" by (simp add: r1(3))
  have persisted: "\<exists>md r. load_metadata w1 = Inr md \<and> md aid = Some r \<and> m_hash r = md5_hexdigest L m"
    using st lw1 by (auto simp: stored_def)
  have second: "(\<forall>c'. (aid, c') \<in> set cl2 \<longrightarrow> c' = Unchanged) \<and> md_filename aid \<notin> set new2"
  proof (cases "cl2 = []")
    case True
    obtain s where "delta_inv s" "new2 = new_articles s" "cl2 = classified s"
      using scrape_all_delta_inv [OF run2] by blast
    then have "new2 = []" using True by (simp add: delta_inv_def)
    then show ?thesis using True by simp
  next
    case False
    then obtain ds2 v1 m2 s2 v2 where r2:
      "fetch_articles_list N2 100 (w1\<lparr>h2t := handled\<rparr>) = Some (ds2, v1)" "load_metadata v1 = Inr m2"
      "scrape_loop L N2 (slice_to limit2 ds2) (init_state m2, v1) = (s2, v2)"
      "cl2 = classified s2" "new2 = new_articles s2" "ms2 = scraped s2"
      using scrape_all_nonempty [OF run2] by blast
    have "metadata_file v1 = metadata_file (w1\<lparr>h2t := handled\<rparr>)"
      using fetch_articles_list_reads_only [OF r2(1)] by (simp add: reads_only_def)
    then have "m2 = metadata s1"
      using load_metadata_cong [of v1 "w1\<lparr>h2t := handled\<rparr>"] lw1 r2(2) by simp
    then have "second_run_inv L aid m (init_state m2)"
      using st by (simp add: second_run_inv_def init_state_def)
    then have "second_run_inv L aid m (fst (scrape_loop L N2 (slice_to limit2 ds2) (init_state m2, v1)))"
      using second_run_inv_loop [of L aid m "(init_state m2, v1)" N2 "slice_to limit2 ds2"]
        same2 r2(3,6) by simp
    then show ?thesis using r2(3,4,5) by (simp add: second_run_inv_def)
  qed
  show ?thesis using persisted second by blast
qed

lemma scrape_one_requests:
  "requests (snd (scrape_one L N d (s, w))) = requests w @ [GetArticle (str_int (d_id d))]"
  by (cases rule: scrape_one_cases [where L = L and N = N and d = d and w = w and s = s])
     (simp_all add: scrape_one_Failed scrape_one_Added scrape_one_Updated scrape_one_Unchanged)

lemma scrape_loop_requests:
  "requests (snd (scrape_loop L N ds sw)) =
   requests (snd sw) @ map (\<lambda>d. GetArticle (str_int (d_id d))) ds"
proof (induction ds arbitrary: sw)
  case Nil
  then show ?case by simp
next
  case (Cons d ds)
  show ?case
    using Cons.IH [of "scrape_one L N d sw"] scrape_one_requests [of L N d "fst sw" "snd sw"]
    by simp
qed

lemma requests_save_metadata [simp]: "requests (save_metadata m w) = requests w"
  by (simp add: save_metadata_def json_dump_def open_w_def)

lemma scrape_all_no_upload:
  assumes "scrape_all L N limit w = Some (r, w')"
  shows "\<exists>rs. requests w' = requests w @ rs \<and> (\<forall>q \<in> set rs. \<not> is_upload q)"
proof -
  obtain ds w1 where l: "fetch_articles_list N 100 w = Some (ds, w1)"
    using assms by (auto simp: scrape_all_def split: option.splits)
  obtain rs where rs: "requests w1 = requests w @ rs" "\<forall>q \<in> set rs. \<not> is_upload q"
    using fetch_articles_list_reads_only [OF l] by (auto simp: reads_only_def)
  have "w' = w1 \<or> (\<exists>m. w' = save_metadata (metadata (fst (scrape_loop L N (slice_to limit ds) (init_state m, w1))))
           (snd (scrape_loop L N (slice_to limit ds) (init_state m, w1))))"
    using assms l by (auto simp: scrape_all_def Let_def split: if_splits sum.splits)
  then show ?thesis
  proof
    assume "w' = w1"
    then show ?thesis using rs by auto
  next
    assume "\<exists>m. w' = save_metadata (metadata (fst (scrape_loop L N (slice_to limit ds) (init_state m, w1))))
           (snd (scrape_loop L N (slice_to limit ds) (init_state m, w1)))"
    then have "requests w' =
        requests w @ rs @ map (\<lambda>d. GetArticle (str_int (d_id d))) (slice_to limit ds)"
      using rs(1) by (auto simp: scrape_loop_requests)
    moreover have "\<forall>q \<in> set (rs @ map (\<lambda>d. GetArticle (str_int (d_id d))) (slice_to limit ds)). \<not> is_upload q"
      using rs(2) by (auto simp: is_upload_def)
    ultimately show ?thesis by blast
  qed
qed

lemma VectorStoreManager_Inl: "VectorStoreManager N = Inl e \<Longrightarrow> key_missing N"
  by (auto simp: VectorStoreManager_def key_missing_def split: option.splits if_splits)

lemma VectorStoreManager_Inr: "VectorStoreManager N = Inr manager \<Longrightarrow> \<not> key_missing N"
  by (auto simp: VectorStoreManager_def key_missing_def split: option.splits if_splits)

text \<open>
  C3, as amended. \<^verbatim>\<open>main\<close> returns 1 exactly when the key is missing and the scrape gave
  a delta that is not empty, and 0 otherwise. With a missing key the run ends in the world
  the scrape left, the catalog and article requests already sent, and no upload request is
  sent.
\<close>

theorem missing_key_stops_before_upload:
  assumes "main L N w = Some (code, w')"
  shows "(code = 1 \<longleftrightarrow>
            key_missing N \<and> delta_of (scrape_all L N 50 (OptiSignsScraper w)) \<noteq> []) \<and>
         (code \<noteq> 1 \<longrightarrow> code = 0) \<and>
         (key_missing N \<longrightarrow>
            (\<exists>r. scrape_all L N 50 (OptiSignsScraper w) = Some (r, w')) \<and>
            (\<exists>rs. requests w' = requests w @ rs \<and> (\<forall>q \<in> set rs. \<not> is_upload q)))"
proof -
  let ?w = "OptiSignsScraper w"
  obtain r w1 where s: "scrape_all L N 50 ?w = Some (r, w1)"
    using assms by (auto simp: main_def split: option.splits)
  have d: "delta_of (scrape_all L N 50 ?w) = (case r of Inl e \<Rightarrow> [] | Inr res \<Rightarrow> fst (snd res))"
    by (simp add: s delta_of_def split: sum.splits)
  have a: "code = 1 \<longleftrightarrow> key_missing N \<and> delta_of (scrape_all L N 50 ?w) \<noteq> []"
    using assms s d
    by (auto simp: main_def Let_def split: sum.splits if_splits
        dest: VectorStoreManager_Inl VectorStoreManager_Inr)
  have b: "code \<noteq> 1 \<longrightarrow> code = 0"
    using assms s by (auto simp: main_def Let_def split: sum.splits if_splits)
  have c: "w' = w1" if "key_missing N"
    using assms s that
    by (auto simp: main_def Let_def split: sum.splits if_splits dest: VectorStoreManager_Inr)
  have q: "requests ?w = requests w" by (simp add: OptiSignsScraper_def)
  show ?thesis
    using a b c s scrape_all_no_upload [OF s] q by auto
qed

section \<open>The lister\<close>

lemma loop_stop:
  "\<not> continues (articles_json N (length (requests w)) p pp) \<Longrightarrow>
   fetch_articles_loop N pp p acc w =
     Some (acc @ page_items (articles_json N (length (requests w)) p pp), send (GetArticles p pp) w)"
  by (subst fetch_articles_loop.simps) (auto simp: continues_def page_items_def split: reply.splits)

lemma loop_continue:
  "continues (articles_json N (length (requests w)) p pp) \<Longrightarrow>
   fetch_articles_loop N pp p acc w =
     fetch_articles_loop N pp (p + 1) (acc @ page_items (articles_json N (length (requests w)) p pp))
       (send (GetArticles p pp) w)"
  by (subst fetch_articles_loop.simps) (auto simp: continues_def page_items_def split: reply.splits)

lemma loop_gen:
  "(\<forall>j<k. continues (articles_json N (length (requests w) + j) (p + j) pp)) \<Longrightarrow>
   \<not> continues (articles_json N (length (requests w) + k) (p + k) pp) \<Longrightarrow>
   fetch_articles_loop N pp p acc w =
     Some (acc @ concat (map (\<lambda>j. page_items (articles_json N (length (requests w) + j) (p + j) pp)) [0..<Suc k]),
           w\<lparr>requests := requests w @ map (\<lambda>j. GetArticles (p + j) pp) [0..<Suc k]\<rparr>)"
proof (induction k arbitrary: p acc w)
  case 0
  then show ?case by (simp add: loop_stop send_def)
next
  case (Suc k)
  let ?w = "send (GetArticles p pp) w"
  have c0: "continues (articles_json N (length (requests w)) p pp)"
    using Suc.prems(1) by force
  have a: "\<forall>j<k. continues (articles_json N (length (requests ?w) + j) (p + 1 + j) pp)"
    using Suc.prems(1) by fastforce
  have b: "\<not> continues (articles_json N (length (requests ?w) + k) (p + 1 + k) pp)"
    using Suc.prems(2) by simp
  have sh: "[0..<Suc (Suc k)] = 0 # map Suc [0..<Suc k]"
    by (metis map_Suc_upt upt_conv_Cons zero_less_Suc)
  show ?case
    unfolding loop_continue [OF c0] Suc.IH [OF a b]
    by (simp add: sh send_def comp_def del: upt_Suc)
qed

text \<open>
  The lister returns only when some page stops it: a catalog whose every page continues
  keeps it running.
\<close>

lemma fetch_articles_loop_returns_after_stop:
  assumes "fetch_articles_loop N pp p acc w = Some y"
  shows "\<exists>j. \<not> continues (articles_json N (length (requests w) + j) (p + j) pp)"
proof (rule fetch_articles_loop.raw_induct
    [where P = "\<lambda>N pp p acc w y.
       \<exists>j. \<not> continues (articles_json N (length (requests w) + j) (p + j) pp)", OF _ assms],
    goal_cases)
  case (1 loop N pp p acc w y)
  show ?case
  proof (cases "continues (articles_json N (length (requests w)) p pp)")
    case False
    then have "\<not> continues (articles_json N (length (requests w) + 0) (p + 0) pp)" by simp
    then show ?thesis by blast
  next
    case True
    then have "loop N pp (p + 1) (acc @ page_items (articles_json N (length (requests w)) p pp))
        (send (GetArticles p pp) w) = Some y"
      using 1(2) by (auto simp: continues_def page_items_def split: reply.splits if_splits)
    from 1(1) [OF this]
    obtain j where "\<not> continues (articles_json N (length (requests w) + Suc j) (p + Suc j) pp)"
      by auto
    then show ?thesis by blast
  qed
qed

lemma fetch_articles_list_never_returns:
  "\<forall>j. continues (articles_json N (length (requests w) + j) (Suc j) pp) \<Longrightarrow>
   fetch_articles_list N pp w = None"
  using fetch_articles_loop_returns_after_stop [of N pp 1 "[]" w]
  by (cases "fetch_articles_list N pp w") (auto simp: fetch_articles_list_def)

text \<open>
  C7. The lister asks for the pages 1, 2, ... in turn. When the first \<open>k\<close> pages
  answer 200 with articles and a next page, and page \<open>k + 1\<close> does not (it raises, has
  another status, has no article or names no next page), the lister returns after
  exactly \<open>k + 1\<close> requests, with the articles of the pages answered with 200, in page
  order: a failed page adds nothing and what was gathered before it is returned.
\<close>

theorem fetch_articles_list_pages:
  assumes "\<forall>j<k. continues (articles_json N (length (requests w) + j) (Suc j) per_page)"
    and "\<not> continues (articles_json N (length (requests w) + k) (Suc k) per_page)"
  shows "fetch_articles_list N per_page w =
     Some (concat (map (\<lambda>j. page_items (articles_json N (length (requests w) + j) (Suc j) per_page))
                    [0..<Suc k]),
           w\<lparr>requests := requests w @ map (\<lambda>j. GetArticles (Suc j) per_page) [0..<Suc k]\<rparr>)"
  using loop_gen [of k N w 1 per_page "[]"] assms
  by (simp add: fetch_articles_list_def)

section \<open>Runs of the example service\<close>

lemma str_int_7: "str_int 7 = ''7''"
  by code_simp

lemma str_int_8: "str_int 8 = ''8''"
  by code_simp

lemma clean_7:
  "clean_html_to_markdown demo_library ''x'' ''u'' handled = (md7, handled @ [''x''])"
  by (simp add: clean_html_to_markdown_def demo_library_def header_def strip_def isspace_def
      newline_def md7_def)

lemma md7_usable: "md7 \<noteq> [] \<and> md7 \<noteq> header ''u''"
  by (simp add: md7_def header_def)

lemma list_demo: "fetch_articles_list (demo_net ds) 100 w = Some (ds, send (GetArticles 1 100) w)"
  unfolding fetch_articles_list_def
  by (subst loop_stop) (simp_all add: demo_net_def continues_def page_items_def)

lemma scrape_7:
  "scrape_article demo_library (demo_net ds) d7 w =
     (Some data7, (send (GetArticle ''7'') w)\<lparr>h2t := h2t w @ [''x'']\<rparr>)"
  by (simp add: scrape_article_def fetch_article_content_def d7_def str_int_7 demo_net_def
      demo_article_def clean_7 md7_usable get_article_hash_def Let_def data7_def)
     (simp add: demo_library_def)

lemma scrape_8:
  "scrape_article demo_library (demo_net ds) d8 w = (None, send (GetArticle ''8'') w)"
  by (simp add: scrape_article_def fetch_article_content_def d8_def str_int_8 demo_net_def
      demo_article_def)

lemma markdown_data7: "ad_markdown data7 = md7"
  by (simp add: data7_def)

lemma turn_8:
  "scrape_one demo_library (demo_net ds) d8 (s, w) =
     (s\<lparr>counts := (counts s)\<lparr>failed := failed (counts s) + 1\<rparr>,
        classified := classified s @ [(''8'', Failed)],
        scraped := scraped s @ [(''8'', None)]\<rparr>,
      send (GetArticle ''8'') w)"
  using scrape_one_Failed [of demo_library "demo_net ds" d8 w s]
  by (simp add: scrape_8) (simp add: d8_def str_int_8)

lemma turn_7_new:
  "metadata s ''7'' = None \<Longrightarrow>
   scrape_one demo_library (demo_net ds) d7 (s, w) =
     (s\<lparr>counts := (counts s)\<lparr>added := added (counts s) + 1\<rparr>,
        metadata := (metadata s)(''7'' \<mapsto> record7),
        new_articles := new_articles s @ [''7.md''],
        classified := classified s @ [(''7'', Added)],
        scraped := scraped s @ [(''7'', Some md7)]\<rparr>,
      save_article data7 ''7.md'' ((send (GetArticle ''7'') w)\<lparr>h2t := h2t w @ [''x'']\<rparr>))"
  using scrape_one_Added [of demo_library "demo_net ds" d7 w data7 s]
  by (simp add: scrape_7 md_filename_def markdown_data7)
     (simp add: d7_def str_int_7 data7_def record7_def)

lemma turn_7_same:
  "metadata s ''7'' = Some r \<Longrightarrow> m_hash r = md7 \<Longrightarrow>
   scrape_one demo_library (demo_net ds) d7 (s, w) =
     (s\<lparr>counts := (counts s)\<lparr>skipped := skipped (counts s) + 1\<rparr>,
        classified := classified s @ [(''7'', Unchanged)],
        scraped := scraped s @ [(''7'', Some md7)]\<rparr>,
      (send (GetArticle ''7'') w)\<lparr>h2t := h2t w @ [''x'']\<rparr>)"
  using scrape_one_Unchanged [of demo_library "demo_net ds" d7 w data7 s r]
  by (simp add: scrape_7 markdown_data7) (simp add: d7_def str_int_7 data7_def)

lemma path_7: "os_path_join ''articles'' ''7.md'' = ''articles/7.md''"
  by (simp add: os_path_join_def)

lemma new_scraper_empty_world: "OptiSignsScraper empty_world = empty_world"
  by (simp add: OptiSignsScraper_def empty_world_def)

lemma run_7:
  "scrape_all demo_library (demo_net [d7]) 50 empty_world =
     Some (Inr (\<lparr>added = 1, updated = 0, skipped = 0, failed = 0\<rparr>, [''7.md''], [(''7'', Added)],
                [(''7'', Some md7)]),
           world_after_7)"
  by (simp add: scrape_all_def list_demo load_metadata_def empty_world_def slice_to_def
      init_state_def zero_stats_def turn_7_new result_of_def save_metadata_def json_dump_def
      open_w_def save_article_def send_def path_7 world_after_7_def markdown_data7)

lemma run_7_again:
  "scrape_all demo_library (demo_net [d7]) 50 (world_after_7\<lparr>h2t := []\<rparr>) =
     Some (Inr (\<lparr>added = 0, updated = 0, skipped = 1, failed = 0\<rparr>, [], [(''7'', Unchanged)],
                [(''7'', Some md7)]),
           world_after_7\<lparr>requests :=
              [GetArticles 1 100, GetArticle ''7'', GetArticles 1 100, GetArticle ''7'']\<rparr>)"
  by (simp add: scrape_all_def list_demo load_metadata_def slice_to_def
      init_state_def zero_stats_def turn_7_same [where r = record7] result_of_def save_metadata_def
      json_dump_def open_w_def send_def world_after_7_def record7_def)

lemma run_77:
  "scrape_all demo_library (demo_net [d7, d7]) 30 empty_world =
     Some (Inr (\<lparr>added = 1, updated = 0, skipped = 1, failed = 0\<rparr>, [''7.md''],
                [(''7'', Added), (''7'', Unchanged)],
                [(''7'', Some md7), (''7'', Some md7)]),
           world_after_7\<lparr>requests := [GetArticles 1 100, GetArticle ''7'', GetArticle ''7''],
                           h2t := [''x'', ''x'']\<rparr>)"
  by (simp add: scrape_all_def list_demo load_metadata_def empty_world_def slice_to_def
      init_state_def zero_stats_def turn_7_new turn_7_same [where r = record7] result_of_def
      save_metadata_def json_dump_def
      open_w_def save_article_def send_def path_7 world_after_7_def markdown_data7 record7_def)

lemma run_78:
  "scrape_all demo_library (demo_net [d7, d8]) 50 empty_world =
     Some (Inr (\<lparr>added = 1, updated = 0, skipped = 0, failed = 1\<rparr>, [''7.md''],
                [(''7'', Added), (''8'', Failed)],
                [(''7'', Some md7), (''8'', None)]),
           world_after_7\<lparr>requests := [GetArticles 1 100, GetArticle ''7'', GetArticle ''8'']\<rparr>)"
  by (simp add: scrape_all_def list_demo load_metadata_def empty_world_def slice_to_def
      init_state_def zero_stats_def turn_7_new turn_8 result_of_def
      save_metadata_def json_dump_def
      open_w_def save_article_def send_def path_7 world_after_7_def markdown_data7)

text \<open>
  A run over the articles 7 and 8, whose ids differ: 7 is added, 8 fails, and the file of
  8 is not in the delta.
\<close>

theorem delta_is_added_and_updated_witness:
  "scrape_all demo_library (demo_net [d7, d8]) 50 empty_world =
     Some (Inr (\<lparr>added = 1, updated = 0, skipped = 0, failed = 1\<rparr>, [''7.md''],
                [(''7'', Added), (''8'', Failed)],
                [(''7'', Some md7), (''8'', None)]),
           world_after_7\<lparr>requests := [GetArticles 1 100, GetArticle ''7'', GetArticle ''8'']\<rparr>) \<and>
   distinct (map fst [(''7'', Added), (''8'', Failed)]) \<and>
   [''7.md''] = map (\<lambda>e. md_filename (fst e)) (filter changed [(''7'', Added), (''8'', Failed)]) \<and>
   md_filename ''8'' \<notin> set [''7.md'']"
  using delta_is_added_and_updated [OF run_78] run_78
  by (simp add: md_filename_def changed_def)

text \<open>
  C1 as stated fails when the catalog lists article 7 twice: the second entry is
  classified Unchanged, and the file of article 7 is in the delta.
\<close>

theorem delta_holds_unchanged_article_counterexample:
  "scrape_all demo_library (demo_net [d7, d7]) 30 empty_world =
     Some (Inr (\<lparr>added = 1, updated = 0, skipped = 1, failed = 0\<rparr>, [''7.md''],
                [(''7'', Added), (''7'', Unchanged)],
                [(''7'', Some md7), (''7'', Some md7)]),
           world_after_7\<lparr>requests := [GetArticles 1 100, GetArticle ''7'', GetArticle ''7''],
                           h2t := [''x'', ''x'']\<rparr>) \<and>
   (''7'', Unchanged) \<in> set [(''7'', Added), (''7'', Unchanged)] \<and>
   md_filename ''7'' \<in> set [''7.md'']"
  using run_77 by (simp add: md_filename_def)

text \<open>
  Two runs over article 7, each with a new converter, that scrape the same markdown:
  added in the first, unchanged in the second.
\<close>

theorem same_content_is_unchanged_witness:
  "scrape_all demo_library (demo_net [d7]) 50 empty_world =
     Some (Inr (\<lparr>added = 1, updated = 0, skipped = 0, failed = 0\<rparr>, [''7.md''], [(''7'', Added)],
                [(''7'', Some md7)]),
           world_after_7) \<and>
   (''7'', Added) \<in> set [(''7'', Added)] \<and>
   last_markdown ''7'' [(''7'', Some md7)] = Some md7 \<and>
   scrape_all demo_library (demo_net [d7]) 50 (world_after_7\<lparr>h2t := []\<rparr>) =
     Some (Inr (\<lparr>added = 0, updated = 0, skipped = 1, failed = 0\<rparr>, [], [(''7'', Unchanged)],
                [(''7'', Some md7)]),
           world_after_7\<lparr>requests :=
              [GetArticles 1 100, GetArticle ''7'', GetArticles 1 100, GetArticle ''7'']\<rparr>) \<and>
   snd (''7'', Some md7) = Some md7 \<and>
   (''7'', Unchanged) \<in> set [(''7'', Unchanged)] \<and>
   md_filename ''7'' \<notin> set []"
proof -
  have c: "(''7'', Added) \<in> set [(''7'', Added)]" by simp
  have a: "Added = Added \<or> Added = Updated" by simp
  have l: "last_markdown ''7'' [(''7'', Some md7)] = Some md7" by simp
  have e: "\<forall>e \<in> set [(''7'', Some md7)]. fst e = ''7'' \<longrightarrow> snd e = Some md7" by simp
  show ?thesis
    using same_content_is_unchanged [OF run_7 c a l run_7_again e] run_7 run_7_again l
    by simp
qed

lemma no_manager: "VectorStoreManager (demo_net ds) = Inl ValueError"
  by (simp add: VectorStoreManager_def demo_net_def)

lemma main_7: "main demo_library (demo_net [d7]) empty_world = Some (1, world_after_7)"
  by (simp add: main_def new_scraper_empty_world run_7 no_manager)

lemma key_missing_demo: "key_missing (demo_net ds)"
  by (simp add: key_missing_def demo_net_def)

text \<open>
  With no key and a delta of one file, the run ends with code 1 after the two read requests.
\<close>

theorem missing_key_stops_before_upload_witness:
  "main demo_library (demo_net [d7]) empty_world = Some (1, world_after_7) \<and>
   key_missing (demo_net [d7]) \<and>
   delta_of (scrape_all demo_library (demo_net [d7]) 50 (OptiSignsScraper empty_world)) = [''7.md''] \<and>
   requests world_after_7 = requests empty_world @ [GetArticles 1 100, GetArticle ''7''] \<and>
   \<not> is_upload (GetArticles 1 100) \<and> \<not> is_upload (GetArticle ''7'')"
proof -
  have d: "delta_of (scrape_all demo_library (demo_net [d7]) 50 (OptiSignsScraper empty_world)) =
      [''7.md'']"
    by (simp add: new_scraper_empty_world run_7 delta_of_def)
  have r: "requests world_after_7 = requests empty_world @ [GetArticles 1 100, GetArticle ''7'']"
    by (simp add: world_after_7_def empty_world_def)
  have u: "\<not> is_upload (GetArticles 1 100) \<and> \<not> is_upload (GetArticle ''7'')"
    by (simp add: is_upload_def)
  show ?thesis
    using missing_key_stops_before_upload [OF main_7] main_7 key_missing_demo [of "[d7]"] d r u
    by blast
qed

text \<open>
  C3 as stated fails: with no key, the run that ends with code 1 has sent a catalog request
  and an article request before.
\<close>

theorem missing_key_aborts_after_requests_counterexample:
  "OPENAI_API_KEY (demo_net [d7]) = None \<and>
   main demo_library (demo_net [d7]) empty_world = Some (1, world_after_7) \<and>
   requests empty_world = [] \<and>
   requests world_after_7 = [GetArticles 1 100, GetArticle ''7'']"
  using main_7 by (simp add: demo_net_def world_after_7_def empty_world_def)




lemma basename_7: "basename ''articles/7.md'' = ''7.md''"
  by (simp add: basename_def)

lemma register_7:
  "upload_file (demo_net []) demo_manager (os_path_join ''articles'' ''7.md'') world_after_7 =
     (Some \<lparr>fo_id = Some ''f''\<rparr>, send (PostFile ''7.md'' md7) world_after_7)"
  by (simp add: path_7 upload_file_def basename_7 demo_net_def world_after_7_def)

lemma attach_fails:
  "add_file_to_vector_store (demo_net []) demo_manager fid w =
     (None, send (PostVectorStoreFile None fid) w)"
  by (simp add: add_file_to_vector_store_def demo_net_def demo_manager_def)

lemma register_7_any:
  "fs w ''articles/7.md'' = Some md7 \<Longrightarrow>
   upload_file (demo_net []) demo_manager ''articles/7.md'' w =
     (Some \<lparr>fo_id = Some ''f''\<rparr>, send (PostFile ''7.md'' md7) w)"
  by (simp add: upload_file_def basename_7 demo_net_def)

lemma upload_turn_7:
  "fs w ''articles/7.md'' = Some md7 \<Longrightarrow>
   upload_one (demo_net []) demo_manager ''articles/7.md'' ((u, k), w) =
     ((u, k + 1), send (PostVectorStoreFile None (Some ''f'')) (send (PostFile ''7.md'' md7) w))"
  by (simp add: upload_one_def register_7_any attach_fails)

lemma upload_7_twice:
  "upload_delta_files (demo_net []) demo_manager [''7.md'', ''7.md''] ''articles'' world_after_7 =
     (\<lparr>uploaded = 0, failed_uploads = 2, total = 2\<rparr>,
      world_after_7\<lparr>requests :=
         [GetArticles 1 100, GetArticle ''7'',
          PostFile ''7.md'' md7, PostVectorStoreFile None (Some ''f''),
          PostFile ''7.md'' md7, PostVectorStoreFile None (Some ''f'')]\<rparr>)"
proof -
  have f: "fs world_after_7 ''articles/7.md'' = Some md7"
    by (simp add: world_after_7_def)
  have "upload_loop (demo_net []) demo_manager [''articles/7.md'', ''articles/7.md'']
          ((0, 0), world_after_7) =
        ((0, 2),
         send (PostVectorStoreFile None (Some ''f'')) (send (PostFile ''7.md'' md7)
           (send (PostVectorStoreFile None (Some ''f'')) (send (PostFile ''7.md'' md7)
              world_after_7))))"
    by (simp add: upload_turn_7 f)
  then show ?thesis
    by (simp add: upload_delta_files_def path_7 send_def world_after_7_def)
qed

text \<open>
  The file of article 7 is registered, the attach step fails, and the turn counts one
  failure; the same file, named again after it, is sent for registering again.
\<close>

theorem attach_failure_counted_witness:
  "[''7.md'', ''7.md''] = [] @ ''7.md'' # [''7.md''] \<and>
   upload_loop (demo_net []) demo_manager (map (os_path_join ''articles'') []) ((0, 0), world_after_7) =
     ((0, 0), world_after_7) \<and>
   upload_file (demo_net []) demo_manager (os_path_join ''articles'' ''7.md'') world_after_7 =
     (Some \<lparr>fo_id = Some ''f''\<rparr>, send (PostFile ''7.md'' md7) world_after_7) \<and>
   fst (add_file_to_vector_store (demo_net []) demo_manager (fo_id \<lparr>fo_id = Some ''f''\<rparr>)
          (send (PostFile ''7.md'' md7) world_after_7)) = None \<and>
   ''7.md'' \<in> set [''7.md''] \<and>
   fs world_after_7 (os_path_join ''articles'' ''7.md'') = Some md7 \<and>
   fst (upload_one (demo_net []) demo_manager (os_path_join ''articles'' ''7.md'') ((0, 0), world_after_7)) =
     (0, 1) \<and>
   fst (upload_delta_files (demo_net []) demo_manager [''7.md'', ''7.md''] ''articles'' world_after_7) =
     \<lparr>uploaded = 0, failed_uploads = 2, total = 2\<rparr>"
proof -
  have a: "[''7.md'', ''7.md''] = [] @ ''7.md'' # [''7.md'']" by simp
  have l: "upload_loop (demo_net []) demo_manager (map (os_path_join ''articles'') [])
      ((0, 0), world_after_7) = ((0, 0), world_after_7)" by simp
  have f: "fst (add_file_to_vector_store (demo_net []) demo_manager (fo_id \<lparr>fo_id = Some ''f''\<rparr>)
          (send (PostFile ''7.md'' md7) world_after_7)) = None"
    by (simp add: attach_fails)
  have x: "fs world_after_7 (os_path_join ''articles'' ''7.md'') = Some md7"
    by (simp add: path_7 world_after_7_def)
  from attach_failure_counted [OF a l register_7 f]
  obtain w3 where
    "upload_one (demo_net []) demo_manager (os_path_join ''articles'' ''7.md'') ((0, 0), world_after_7) =
       ((0, 0 + 1), w3)"
    by blast
  then show ?thesis using a l register_7 f x upload_7_twice by simp
qed

text \<open>
  The first page continues and the second answers 500: the articles of the first page are
  returned after two requests.
\<close>

theorem fetch_articles_list_pages_witness:
  "continues (articles_json paged_net (length (requests empty_world) + 0) (Suc 0) 100) \<and>
   \<not> continues (articles_json paged_net (length (requests empty_world) + 1) (Suc 1) 100) \<and>
   fetch_articles_list paged_net 100 empty_world =
     Some ([d7], empty_world\<lparr>requests := [GetArticles 1 100, GetArticles 2 100]\<rparr>)"
proof -
  have c: "\<forall>j<1. continues (articles_json paged_net (length (requests empty_world) + j) (Suc j) 100)"
    by (simp add: paged_net_def demo_net_def continues_def)
  have s: "\<not> continues (articles_json paged_net (length (requests empty_world) + 1) (Suc 1) 100)"
    by (simp add: paged_net_def demo_net_def continues_def)
  have i: "page_items (articles_json paged_net n (Suc 0) 100) = [d7]"
      "page_items (articles_json paged_net n (Suc (Suc 0)) 100) = []" for n
    by (simp_all add: paged_net_def demo_net_def page_items_def)
  have e: "requests empty_world = []" by (simp add: empty_world_def)
  show ?thesis
    using fetch_articles_list_pages [OF c s] c s
    by (simp add: i e)
qed

lemma list_7: "fetch_articles_list (demo_net [d7]) 100 empty_world =
    Some ([d7], send (GetArticles 1 100) empty_world)"
  by (rule list_demo)

text \<open>A first run over article 7 leaves the new store to load.\<close>

theorem store_rewritten_in_place_witness:
  "scrape_all demo_library (demo_net [d7]) 50 empty_world =
     Some (Inr (\<lparr>added = 1, updated = 0, skipped = 0, failed = 0\<rparr>, [''7.md''], [(''7'', Added)],
                [(''7'', Some md7)]),
           world_after_7) \<and>
   fetch_articles_list (demo_net [d7]) 100 empty_world =
     Some ([d7], send (GetArticles 1 100) empty_world) \<and>
   [d7] \<noteq> [] \<and>
   load_metadata empty_world = Inr Map.empty \<and>
   load_metadata world_after_7 = Inr [''7'' \<mapsto> record7]"
proof -
  have n: "[d7] \<noteq> []" by simp
  have l0: "load_metadata empty_world = Inr Map.empty"
    by (simp add: load_metadata_def empty_world_def)
  have l1: "load_metadata world_after_7 = Inr [''7'' \<mapsto> record7]"
    by (simp add: load_metadata_def world_after_7_def)
  show ?thesis
    using store_rewritten_in_place [OF run_7 list_7 n] run_7 list_7 l0 l1 by simp
qed

text \<open>
  C8 as stated fails: in a second run over article 7, after the first statement of
  \<^verbatim>\<open>save_metadata\<close> the file loads neither as the old store nor as the new one.
\<close>

theorem store_emptied_during_save_counterexample:
  "load_metadata world_after_7 = Inr [''7'' \<mapsto> record7] \<and>
   scrape_loop demo_library (demo_net [d7]) [d7]
      (init_state [''7'' \<mapsto> record7], send (GetArticles 1 100) (OptiSignsScraper world_after_7)) =
     (loop_state_7,
      (send (GetArticle ''7'') (send (GetArticles 1 100) world_after_7))\<lparr>h2t := [''x'']\<rparr>) \<and>
   load_metadata (hd (save_metadata_steps (metadata loop_state_7)
      ((send (GetArticle ''7'') (send (GetArticles 1 100) world_after_7))\<lparr>h2t := [''x'']\<rparr>))) =
     Inl JSONDecodeError"
  by (simp add: load_metadata_def world_after_7_def init_state_def zero_stats_def
      turn_7_same [where r = record7] record7_def loop_state_7_def save_metadata_steps_def
      open_w_def send_def OptiSignsScraper_def)

lemma run_8_later:
  "scrape_all demo_library (demo_net [d8]) 50 world_after_7 =
     Some (Inr (\<lparr>added = 0, updated = 0, skipped = 0, failed = 1\<rparr>, [], [(''8'', Failed)],
                [(''8'', None)]),
           world_after_7\<lparr>requests :=
              [GetArticles 1 100, GetArticle ''7'', GetArticles 1 100, GetArticle ''8'']\<rparr>)"
  by (simp add: scrape_all_def list_demo load_metadata_def slice_to_def
      init_state_def zero_stats_def turn_8 result_of_def save_metadata_def
      json_dump_def open_w_def send_def world_after_7_def)

text \<open>A later run over the failing article 8 keeps the record of article 7.\<close>

theorem store_never_shrinks_witness:
  "scrape_all demo_library (demo_net [d8]) 50 world_after_7 =
     Some (Inr (\<lparr>added = 0, updated = 0, skipped = 0, failed = 1\<rparr>, [], [(''8'', Failed)],
                [(''8'', None)]),
           world_after_7\<lparr>requests :=
              [GetArticles 1 100, GetArticle ''7'', GetArticles 1 100, GetArticle ''8'']\<rparr>) \<and>
   load_metadata world_after_7 = Inr [''7'' \<mapsto> record7] \<and>
   load_metadata (world_after_7\<lparr>requests :=
              [GetArticles 1 100, GetArticle ''7'', GetArticles 1 100, GetArticle ''8'']\<rparr>) =
     Inr [''7'' \<mapsto> record7] \<and>
   ''7'' \<in> dom [''7'' \<mapsto> record7]"
proof -
  have l1: "load_metadata world_after_7 = Inr [''7'' \<mapsto> record7]"
    by (simp add: load_metadata_def world_after_7_def)
  have l2: "load_metadata (world_after_7\<lparr>requests :=
              [GetArticles 1 100, GetArticle ''7'', GetArticles 1 100, GetArticle ''8'']\<rparr>) =
     Inr [''7'' \<mapsto> record7]"
    by (simp add: load_metadata_def world_after_7_def)
  show ?thesis
    using store_never_shrinks [OF run_8_later l1] run_8_later l1 l2 by simp
qed

text \<open>
  With a converter that keeps state, the same body need not give the same markdown: in a
  second run that handles the blank article 9 before article 7, the unchanged article 7 is
  scraped with another markdown and classified Updated.
\<close>

lemma str_int_9: "str_int 9 = ''9''"
  by code_simp

lemma leaky_scrape_9:
  "h2t w = [] \<Longrightarrow>
   scrape_article leaky_library (demo_net ds) d9 w =
     (None, (send (GetArticle ''9'') w)\<lparr>h2t := ['' '']\<rparr>)"
  by (simp add: scrape_article_def fetch_article_content_def d9_def str_int_9 demo_net_def
      demo_article_def clean_html_to_markdown_def leaky_library_def header_def strip_def
      isspace_def newline_def Let_def)

lemma leaky_scrape_7:
  "h2t w \<noteq> [] \<Longrightarrow>
   fst (scrape_article leaky_library (demo_net ds) d7 w) =
     Some (data7\<lparr>ad_markdown := md7 @ ''!'', ad_hash := md7 @ ''!''\<rparr>)"
  by (simp add: scrape_article_def fetch_article_content_def d7_def str_int_7 demo_net_def
      demo_article_def clean_html_to_markdown_def leaky_library_def header_def strip_def
      isspace_def newline_def Let_def get_article_hash_def data7_def md7_def)

lemma leaky_second_run:
  "result_of (fst (scrape_loop leaky_library (demo_net [d9, d7]) [d9, d7]
      (init_state [''7'' \<mapsto> record7], send (GetArticles 1 100) (OptiSignsScraper world_after_7)))) =
     (\<lparr>added = 0, updated = 1, skipped = 0, failed = 1\<rparr>, [''7.md''],
      [(''9'', Failed), (''7'', Updated)],
      [(''9'', None), (''7'', Some (md7 @ ''!''))])"
proof -
  let ?w = "send (GetArticles 1 100) (OptiSignsScraper world_after_7)"
  let ?s = "init_state [''7'' \<mapsto> record7]"
  have e: "h2t ?w = []" by (simp add: OptiSignsScraper_def)
  have n: "fst (scrape_article leaky_library (demo_net [d9, d7]) d9 ?w) = None"
    using leaky_scrape_9 [OF e, of "[d9, d7]"] by simp
  have i9: "str_int (d_id d9) = ''9''" by (simp add: d9_def str_int_9)
  have i7: "str_int (d_id d7) = ''7''" by (simp add: d7_def str_int_7)
  let ?w1 = "snd (scrape_article leaky_library (demo_net [d9, d7]) d9 ?w)"
  have h: "h2t ?w1 \<noteq> []"
    using leaky_scrape_9 [OF e, of "[d9, d7]"] by simp
  let ?s1 = "?s\<lparr>counts := (counts ?s)\<lparr>failed := failed (counts ?s) + 1\<rparr>,
        classified := classified ?s @ [(str_int (d_id d9), Failed)],
        scraped := scraped ?s @ [(str_int (d_id d9), None)]\<rparr>"
  have m: "metadata ?s1 (str_int (d_id d7)) = Some record7"
    by (simp add: init_state_def i7)
  have x: "m_hash record7 \<noteq> ad_hash (data7\<lparr>ad_markdown := md7 @ ''!'', ad_hash := md7 @ ''!''\<rparr>)"
    by (simp add: record7_def)
  have t1: "scrape_one leaky_library (demo_net [d9, d7]) d9 (?s, ?w) = (?s1, ?w1)"
    by (rule scrape_one_Failed [OF n])
  note t2 = scrape_one_Updated [OF leaky_scrape_7 [OF h] m x]
  show ?thesis
    unfolding scrape_loop.simps t1 t2
    by (simp add: result_of_def init_state_def zero_stats_def i9 i7 md_filename_def)
qed

end
